theory Spec2Isabelle
  imports
    Main
    "HOL-Library.AList"
    "HOL-Library.Multiset"
    "HOL-Library.Char_ord"
    "HOL-Library.List_Lexorder"
begin

section \<open>JavaScript values\<close>

text \<open>
  Everything the planner reads from localStorage or from an imported file went through
  \<^verbatim>\<open>JSON.parse\<close>, so a value that is present is a JSON value; \<^verbatim>\<open>undefined\<close> is the
  absence of a value (\<open>None\<close>). An object is its list of own properties in insertion
  order. Numbers are the integer-valued ones (no fractions, no NaN inside stored data);
  strings are lists of code units below 256.
\<close>

datatype json =
    JNull
  | JBool bool
  | JNum int
  | JStr string
  | JArr "json list"
  | JObj "(string \<times> json) list"

type_synonym jsval = "json option"

datatype js_error = TypeError

text \<open>ToBoolean.\<close>

fun truthy :: "jsval \<Rightarrow> bool" where
  "truthy None = False"
| "truthy (Some JNull) = False"
| "truthy (Some (JBool b)) = b"
| "truthy (Some (JNum n)) = (n \<noteq> 0)"
| "truthy (Some (JStr s)) = (s \<noteq> [])"
| "truthy (Some (JArr xs)) = True"
| "truthy (Some (JObj kvs)) = True"

text \<open>\<^verbatim>\<open>v || d\<close> with a present default \<open>d\<close>.\<close>

fun or_default :: "jsval \<Rightarrow> json \<Rightarrow> json" where
  "or_default None d = d"
| "or_default (Some j) d = (if truthy (Some j) then j else d)"

text \<open>
  Reading a property \<^verbatim>\<open>v.k\<close>, for the keys the planner reads (none of them is defined
  on a built-in prototype): a TypeError on \<^verbatim>\<open>null\<close> and \<^verbatim>\<open>undefined\<close>, the own property
  of an object, \<^verbatim>\<open>undefined\<close> otherwise.
\<close>

fun get_prop :: "jsval \<Rightarrow> string \<Rightarrow> js_error + jsval" where
  "get_prop None k = Inl TypeError"
| "get_prop (Some JNull) k = Inl TypeError"
| "get_prop (Some (JObj kvs)) k = Inr (map_of kvs k)"
| "get_prop (Some v) k = Inr None"

text \<open>
  \<^verbatim>\<open>a === b\<close>. Two objects or arrays are equal only when they are the same reference,
  which a caller's argument and a freshly parsed stored value never are.
\<close>

fun strict_eq :: "jsval \<Rightarrow> jsval \<Rightarrow> bool" where
  "strict_eq None None = True"
| "strict_eq (Some JNull) (Some JNull) = True"
| "strict_eq (Some (JBool a)) (Some (JBool b)) = (a = b)"
| "strict_eq (Some (JNum a)) (Some (JNum b)) = (a = b)"
| "strict_eq (Some (JStr a)) (Some (JStr b)) = (a = b)"
| "strict_eq a b = False"

text \<open>Decimal digits of a natural number, as \<^verbatim>\<open>String(n)\<close> prints them.\<close>

definition digit_char :: "nat \<Rightarrow> char" where
  "digit_char d = char_of (48 + d)"

function show_nat :: "nat \<Rightarrow> string" where
  "show_nat n = (if n < 10 then [digit_char n] else show_nat (n div 10) @ [digit_char (n mod 10)])"
  by pat_completeness auto
termination
  by (relation "measure id") auto

declare show_nat.simps [simp del]

definition show_int :: "int \<Rightarrow> string" where
  "show_int i = (if i < 0 then CHR ''-'' # show_nat (nat (- i)) else show_nat (nat i))"

text \<open>
  The own enumerable properties an object spread \<^verbatim>\<open>{...v}\<close> copies: those of an object,
  the indices of an array or of a string, nothing for the other values.
\<close>

fun own_props :: "jsval \<Rightarrow> (string \<times> json) list" where
  "own_props (Some (JObj kvs)) = kvs"
| "own_props (Some (JArr xs)) = zip (map show_nat [0..<length xs]) xs"
| "own_props (Some (JStr s)) = zip (map show_nat [0..<length s]) (map (\<lambda>c. JStr [c]) s)"
| "own_props v = []"

text \<open>
  Writing the properties \<open>src\<close> one after the other into the object \<open>base\<close>. An object has
  each key once; should a list repeat a key, its first binding is the property (as for
  \<open>map_of\<close>), which \<open>clearjunk\<close> keeps.
\<close>

definition spread_into :: "(string \<times> json) list \<Rightarrow> (string \<times> json) list \<Rightarrow> (string \<times> json) list" where
  "spread_into base src = fold (\<lambda>(k, v). AList.update k v) (AList.clearjunk src) base"

section \<open>Storage\<close>

text \<open>
  localStorage holds text. An item is modelled by what \<^verbatim>\<open>JSON.parse\<close> makes of its text:
  a JSON value, or a parse error. \<open>quota_ok\<close> says whether \<^verbatim>\<open>setItem\<close> succeeds (it throws
  when the quota is exceeded).
\<close>

datatype item = Json json | Unparsable

record storage =
  tasks_item :: "item option"
  settings_item :: "item option"
  version_item :: "string option"
  quota_ok :: bool

definition CURRENT_VERSION :: string where
  "CURRENT_VERSION = ''1.0.0''"

definition empty_storage :: storage where
  "empty_storage = \<lparr>tasks_item = None, settings_item = None, version_item = None, quota_ok = True\<rparr>"

definition loadTasks :: "storage \<Rightarrow> json list" where
  "loadTasks st =
     (case tasks_item st of
        None \<Rightarrow> []
      | Some Unparsable \<Rightarrow> []
      | Some (Json (JArr ts)) \<Rightarrow> ts
      | Some (Json v) \<Rightarrow> [])"

fun saveTasks :: "jsval \<Rightarrow> storage \<Rightarrow> bool \<times> storage" where
  "saveTasks (Some (JArr ts)) st =
     (if quota_ok st
      then (True, st\<lparr>tasks_item := Some (Json (JArr ts)), version_item := Some CURRENT_VERSION\<rparr>)
      else (False, st))"
| "saveTasks v st = (False, st)"

fun saveSettings :: "json \<Rightarrow> storage \<Rightarrow> bool \<times> storage" where
  "saveSettings s st =
     (if quota_ok st then (True, st\<lparr>settings_item := Some (Json s)\<rparr>) else (False, st))"

section \<open>Task lifecycle\<close>

text \<open>
  \<open>addTask\<close> takes what the environment supplies as arguments: the identifier
  \<^verbatim>\<open>generateId\<close> returns and the two clock readings, already in ISO form.
\<close>

definition new_task :: "string \<Rightarrow> string \<Rightarrow> string \<Rightarrow> jsval \<Rightarrow> jsval \<Rightarrow> (string \<times> json) list" where
  "new_task ident created updated taskData status =
     AList.update ''updatedAt'' (JStr updated)
       (AList.update ''createdAt'' (JStr created)
         (AList.update ''completed'' (JBool False)
           (AList.update ''status'' (or_default status (JStr ''Todo''))
             (spread_into [(''id'', JStr ident)] (own_props taskData)))))"

definition addTask :: "string \<Rightarrow> string \<Rightarrow> string \<Rightarrow> jsval \<Rightarrow> storage \<Rightarrow> jsval \<times> storage" where
  "addTask ident created updated taskData st =
     (let tasks = loadTasks st in
      case get_prop taskData ''status'' of
        Inl e \<Rightarrow> (Some JNull, st)
      | Inr status \<Rightarrow>
          (let task = JObj (new_task ident created updated taskData status) in
           case saveTasks (Some (JArr (tasks @ [task]))) st of
             (True, st') \<Rightarrow> (Some task, st')
           | (False, st') \<Rightarrow> (Some JNull, st')))"

text \<open>\<^verbatim>\<open>tasks.findIndex((t) => t.id === id)\<close>; reading \<^verbatim>\<open>t.id\<close> of a null element throws.\<close>

fun findIndex_id :: "json list \<Rightarrow> jsval \<Rightarrow> js_error + nat option" where
  "findIndex_id [] ident = Inr None"
| "findIndex_id (t # ts) ident =
     (case get_prop (Some t) ''id'' of
        Inl e \<Rightarrow> Inl e
      | Inr v \<Rightarrow>
          if strict_eq v ident then Inr (Some 0)
          else (case findIndex_id ts ident of
                  Inl e \<Rightarrow> Inl e
                | Inr None \<Rightarrow> Inr None
                | Inr (Some i) \<Rightarrow> Inr (Some (Suc i))))"

definition merged_task :: "json \<Rightarrow> jsval \<Rightarrow> string \<Rightarrow> json" where
  "merged_task t updates updated =
     JObj (AList.update ''updatedAt'' (JStr updated)
            (spread_into (spread_into [] (own_props (Some t))) (own_props updates)))"

definition updateTask :: "string \<Rightarrow> jsval \<Rightarrow> jsval \<Rightarrow> storage \<Rightarrow> jsval \<times> storage" where
  "updateTask updated ident updates st =
     (let tasks = loadTasks st in
      case findIndex_id tasks ident of
        Inl e \<Rightarrow> (Some JNull, st)
      | Inr None \<Rightarrow> (Some JNull, st)
      | Inr (Some i) \<Rightarrow>
          (let t' = merged_task (tasks ! i) updates updated in
           case saveTasks (Some (JArr (tasks[i := t']))) st of
             (True, st') \<Rightarrow> (Some t', st')
           | (False, st') \<Rightarrow> (Some JNull, st')))"

definition completeTask :: "string \<Rightarrow> string \<Rightarrow> jsval \<Rightarrow> storage \<Rightarrow> jsval \<times> storage" where
  "completeTask completedAt updated ident st =
     updateTask updated ident
       (Some (JObj [(''status'', JStr ''Completed''), (''completed'', JBool True),
                    (''completedAt'', JStr completedAt)])) st"

definition uncompleteTask :: "string \<Rightarrow> jsval \<Rightarrow> storage \<Rightarrow> jsval \<times> storage" where
  "uncompleteTask updated ident st =
     updateTask updated ident
       (Some (JObj [(''status'', JStr ''Todo''), (''completed'', JBool False),
                    (''completedAt'', JNull)])) st"

text \<open>
  The invariant of the data model, on a task record: \<^verbatim>\<open>completed === true\<close> iff
  \<^verbatim>\<open>status === "Completed"\<close>.
\<close>

fun task_inv :: "json \<Rightarrow> bool" where
  "task_inv (JObj kvs) =
     ((map_of kvs ''completed'' = Some (JBool True)) =
      (map_of kvs ''status'' = Some (JStr ''Completed'')))"
| "task_inv v = False"

definition store_inv :: "storage \<Rightarrow> bool" where
  "store_inv st = list_all task_inv (loadTasks st)"

text \<open>What an operation returns: \<^verbatim>\<open>null\<close>, or a task that satisfies the invariant.\<close>

definition produced_inv :: "jsval \<Rightarrow> bool" where
  "produced_inv r = (case r of Some JNull \<Rightarrow> True | Some t \<Rightarrow> task_inv t | None \<Rightarrow> False)"

text \<open>Whether \<open>k\<close> is an own property of \<open>v\<close> that a spread would copy.\<close>

definition has_own :: "jsval \<Rightarrow> string \<Rightarrow> bool" where
  "has_own v k = (k \<in> set (map fst (own_props v)))"

text \<open>
  The stores the four lifecycle operations reach from an empty one, when they are called
  the way the planner's form and buttons call them: a new task does not arrive with the
  status "Completed", and an edit carries neither \<^verbatim>\<open>status\<close> nor \<^verbatim>\<open>completed\<close>. The quota
  is the browser's and may change at any time.
\<close>

inductive reachable :: "storage \<Rightarrow> bool" where
  r_init: "reachable empty_storage"
| r_quota: "reachable st \<Longrightarrow> reachable (st\<lparr>quota_ok := b\<rparr>)"
| r_add: "reachable st \<Longrightarrow> get_prop taskData ''status'' \<noteq> Inr (Some (JStr ''Completed'')) \<Longrightarrow>
          reachable (snd (addTask ident created updated taskData st))"
| r_update: "reachable st \<Longrightarrow> \<not> has_own updates ''status'' \<Longrightarrow> \<not> has_own updates ''completed'' \<Longrightarrow>
          reachable (snd (updateTask updated ident updates st))"
| r_complete: "reachable st \<Longrightarrow> reachable (snd (completeTask completedAt updated ident st))"
| r_uncomplete: "reachable st \<Longrightarrow> reachable (snd (uncompleteTask updated ident st))"

section \<open>Strings and patterns\<close>

text \<open>
  Character classes of the regular expressions, on code units below 256: \<^verbatim>\<open>\s\<close> (which is
  also what \<^verbatim>\<open>trim\<close> strips: tab, line feed, vertical tab, form feed, carriage return,
  space, no-break space), \<^verbatim>\<open>\d\<close>, \<^verbatim>\<open>[A-Za-z]\<close> and \<^verbatim>\<open>\w\<close>.
\<close>

definition is_space :: "char \<Rightarrow> bool" where
  "is_space c = (of_char c \<in> {9, 10, 11, 12, 13, 32, 160 :: nat})"

definition is_digit :: "char \<Rightarrow> bool" where
  "is_digit c = (48 \<le> (of_char c :: nat) \<and> (of_char c :: nat) \<le> 57)"

definition is_letter :: "char \<Rightarrow> bool" where
  "is_letter c = ((65 \<le> (of_char c :: nat) \<and> (of_char c :: nat) \<le> 90) \<or>
                  (97 \<le> (of_char c :: nat) \<and> (of_char c :: nat) \<le> 122))"

definition is_word_char :: "char \<Rightarrow> bool" where
  "is_word_char c = (is_letter c \<or> is_digit c \<or> c = CHR ''_'')"

definition trim :: "string \<Rightarrow> string" where
  "trim s = rev (dropWhile is_space (rev (dropWhile is_space s)))"

text \<open>
  The patterns without back-references are regular expressions, matched against the whole
  string (all of them are anchored with \<^verbatim>\<open>^\<close> and \<^verbatim>\<open>$\<close>) by taking derivatives.
\<close>

datatype rx =
    Never
  | Empty
  | Cls "char \<Rightarrow> bool"
  | Alt rx rx
  | Seq rx rx
  | Rep rx

fun nullable :: "rx \<Rightarrow> bool" where
  "nullable Never = False"
| "nullable Empty = True"
| "nullable (Cls p) = False"
| "nullable (Alt a b) = (nullable a \<or> nullable b)"
| "nullable (Seq a b) = (nullable a \<and> nullable b)"
| "nullable (Rep a) = True"

fun deriv :: "char \<Rightarrow> rx \<Rightarrow> rx" where
  "deriv c Never = Never"
| "deriv c Empty = Never"
| "deriv c (Cls p) = (if p c then Empty else Never)"
| "deriv c (Alt a b) = Alt (deriv c a) (deriv c b)"
| "deriv c (Seq a b) =
     (if nullable a then Alt (Seq (deriv c a) b) (deriv c b) else Seq (deriv c a) b)"
| "deriv c (Rep a) = Seq (deriv c a) (Rep a)"

definition matches :: "rx \<Rightarrow> string \<Rightarrow> bool" where
  "matches r s = nullable (fold deriv s r)"

definition lit :: "char \<Rightarrow> rx" where
  "lit c = Cls (\<lambda>d. d = c)"

definition one_of :: "string \<Rightarrow> rx" where
  "one_of cs = Cls (\<lambda>d. d \<in> set cs)"

definition rep1 :: "rx \<Rightarrow> rx" where
  "rep1 r = Seq r (Rep r)"

fun seqs :: "rx list \<Rightarrow> rx" where
  "seqs [] = Empty"
| "seqs [r] = r"
| "seqs (r # rs) = Seq r (seqs rs)"

text \<open>\<^verbatim>\<open>/^\S+(?:\s\S+)*$/\<close>\<close>

definition TITLE_REGEX :: rx where
  "TITLE_REGEX =
     Seq (rep1 (Cls (\<lambda>c. \<not> is_space c)))
         (Rep (Seq (Cls is_space) (rep1 (Cls (\<lambda>c. \<not> is_space c)))))"

text \<open>\<^verbatim>\<open>/^[1-9]\d*$/\<close>\<close>

definition DURATION_REGEX :: rx where
  "DURATION_REGEX = Seq (one_of ''123456789'') (Rep (Cls is_digit))"

text \<open>
  \<^verbatim>\<open>/^\d{4}-(0[1-9]|1[0-2])-(0[1-9]|[12]\d|3[01])$/\<close>, with its two groups named.
\<close>

definition month_group :: rx where
  "month_group =
     Alt (Seq (lit CHR ''0'') (one_of ''123456789''))
         (Seq (lit CHR ''1'') (one_of ''012''))"

definition day_group :: rx where
  "day_group =
     Alt (Seq (lit CHR ''0'') (one_of ''123456789''))
         (Alt (Seq (one_of ''12'') (Cls is_digit))
              (Seq (lit CHR ''3'') (one_of ''01'')))"

definition DATE_REGEX :: rx where
  "DATE_REGEX =
     seqs [Cls is_digit, Cls is_digit, Cls is_digit, Cls is_digit,
           lit CHR ''-'', month_group, lit CHR ''-'', day_group]"

text \<open>\<^verbatim>\<open>/^[A-Za-z]+(?:[ -][A-Za-z]+)*$/\<close>\<close>

definition TAG_REGEX :: rx where
  "TAG_REGEX =
     Seq (rep1 (Cls is_letter)) (Rep (Seq (one_of '' -'') (rep1 (Cls is_letter))))"

text \<open>
  \<^verbatim>\<open>/\b(\w+)\s+\1\b/i\<close> has a back-reference, so it is not a regular expression. \<^verbatim>\<open>test\<close>
  answers whether some start \<open>i\<close>, some length \<open>n\<close> of the group and some length \<open>m\<close> of
  the white space give a match: a word boundary at \<open>i\<close>, \<open>n \<ge> 1\<close> word characters,
  \<open>m \<ge> 1\<close> white-space characters, the \<open>n\<close> captured characters again (letters compared
  without case), and a word boundary after them. The captured characters are word
  characters, so comparing without case is comparing after \<open>to_upper\<close>.
\<close>

definition to_upper :: "char \<Rightarrow> char" where
  "to_upper c = (if 97 \<le> (of_char c :: nat) \<and> (of_char c :: nat) \<le> 122
                 then char_of ((of_char c :: nat) - 32) else c)"

text \<open>
  Whether position \<open>i\<close> holds a word character (no position outside the string does), and
  \<^verbatim>\<open>\b\<close> at position \<open>i\<close>: exactly one of the two neighbours is a word character.
\<close>

definition word_char_at :: "string \<Rightarrow> nat \<Rightarrow> bool" where
  "word_char_at s i = (if i < length s then is_word_char (s ! i) else False)"

definition word_boundary :: "string \<Rightarrow> nat \<Rightarrow> bool" where
  "word_boundary s i = ((if 0 < i then word_char_at s (i - 1) else False) \<noteq> word_char_at s i)"

definition slice :: "string \<Rightarrow> nat \<Rightarrow> nat \<Rightarrow> string" where
  "slice s i n = take n (drop i s)"

definition dup_match_at :: "string \<Rightarrow> nat \<Rightarrow> nat \<Rightarrow> nat \<Rightarrow> bool" where
  "dup_match_at s i n m =
     (word_boundary s i \<and>
      1 \<le> n \<and> i + n \<le> length s \<and> list_all is_word_char (slice s i n) \<and>
      1 \<le> m \<and> i + n + m \<le> length s \<and> list_all is_space (slice s (i + n) m) \<and>
      i + n + m + n \<le> length s \<and>
      map to_upper (slice s (i + n + m) n) = map to_upper (slice s i n) \<and>
      word_boundary s (i + n + m + n))"

definition DUPLICATE_WORD_REGEX_test :: "string \<Rightarrow> bool" where
  "DUPLICATE_WORD_REGEX_test s =
     list_ex (\<lambda>i. list_ex (\<lambda>n. list_ex (\<lambda>m. dup_match_at s i n m) [1..<Suc (length s)])
                          [1..<Suc (length s)])
             [0..<Suc (length s)]"

section \<open>Field validators\<close>

record vresult =
  valid :: bool
  error :: string

definition accept :: vresult where
  "accept = \<lparr>valid = True, error = ''''\<rparr>"

definition reject :: "string \<Rightarrow> vresult" where
  "reject msg = \<lparr>valid = False, error = msg\<rparr>"

fun validateTitle :: "jsval \<Rightarrow> vresult" where
  "validateTitle (Some (JStr title)) =
     (if title = [] then reject ''Title is required''
      else let trimmed = trim title in
        if length trimmed < 3 then reject ''Title must be at least 3 characters''
        else if length trimmed > 100 then reject ''Title must not exceed 100 characters''
        else if title \<noteq> trimmed then reject ''Title cannot have leading or trailing spaces''
        else if \<not> matches TITLE_REGEX title then reject ''Title cannot contain consecutive spaces''
        else if DUPLICATE_WORD_REGEX_test title then reject ''Title contains duplicate words''
        else accept)"
| "validateTitle v = reject ''Title is required''"

text \<open>
  \<^verbatim>\<open>String(n)\<close> on an integer-valued number: its decimal digits below \<open>10^21\<close>, and from
  there on the exponent form, as in \<^verbatim>\<open>1e+21\<close> and \<^verbatim>\<open>1.5e+21\<close>. Up to \<open>2^53\<close> the engine holds
  every integer exactly and prints these very digits; of a larger number it prints the
  shortest digits that identify it (at most 17, then zeros), so that the digits printed
  here may differ from the engine's after the sixteenth. The form and the length are the
  engine's.
\<close>

definition strip_zeros :: "string \<Rightarrow> string" where
  "strip_zeros ds = rev (dropWhile (\<lambda>c. c = CHR ''0'') (rev ds))"

definition show_exponent :: "nat \<Rightarrow> string" where
  "show_exponent n =
     (case show_nat n of
        [] \<Rightarrow> []
      | d # ds \<Rightarrow>
          d # (if strip_zeros ds = [] then [] else CHR ''.'' # strip_zeros ds) @
          ''e+'' @ show_nat (length ds))"

definition show_number :: "int \<Rightarrow> string" where
  "show_number i =
     (if \<bar>i\<bar> < 1000000000000000000000 then show_int i
      else if i < 0 then CHR ''-'' # show_exponent (nat (- i))
      else show_exponent (nat i))"

text \<open>
  \<^verbatim>\<open>String(v)\<close> on a JSON value, which is also the conversion that \<^verbatim>\<open>regex.test\<close>,
  \<^verbatim>\<open>parseInt\<close> and a computed property key apply. An array prints its elements joined by
  commas, with \<^verbatim>\<open>null\<close> printed as nothing. An object is converted by its \<^verbatim>\<open>toString\<close>:
  the inherited one prints \<^verbatim>\<open>[object Object]\<close>; an own property of that name, which in
  a JSON value is never a function, hides it, and the conversion throws a TypeError (the
  inherited \<^verbatim>\<open>valueOf\<close> returns the object itself, and an own one is no function
  either).
\<close>

fun js_String :: "json \<Rightarrow> js_error + string"
  and join_elems :: "json list \<Rightarrow> js_error + string" where
  "js_String JNull = Inr ''null''"
| "js_String (JBool b) = Inr (if b then ''true'' else ''false'')"
| "js_String (JNum n) = Inr (show_number n)"
| "js_String (JStr s) = Inr s"
| "js_String (JArr xs) = join_elems xs"
| "js_String (JObj kvs) =
     (if ''toString'' \<in> set (map fst kvs) then Inl TypeError else Inr ''[object Object]'')"
| "join_elems [] = Inr []"
| "join_elems [x] = (if x = JNull then Inr [] else js_String x)"
| "join_elems (x # y # ys) =
     (case (if x = JNull then Inr [] else js_String x) of
        Inl e \<Rightarrow> Inl e
      | Inr s \<Rightarrow>
          (case join_elems (y # ys) of
             Inl e \<Rightarrow> Inl e
           | Inr r \<Rightarrow> Inr (s @ '','' @ r)))"

text \<open>\<^verbatim>\<open>parseInt(s, 10)\<close> on a string of digits: its decimal value.\<close>

definition digit_val :: "char \<Rightarrow> int" where
  "digit_val c = int (of_char c) - 48"

definition digits_val :: "string \<Rightarrow> int" where
  "digits_val s = foldl (\<lambda>acc c. 10 * acc + digit_val c) 0 s"

text \<open>
  \<open>validateDuration\<close> calls \<^verbatim>\<open>String(duration)\<close> outside any \<^verbatim>\<open>try\<close>: where the conversion
  throws, the validator throws.
\<close>

fun validateDuration :: "jsval \<Rightarrow> js_error + vresult" where
  "validateDuration None = Inr (reject ''Duration is required'')"
| "validateDuration (Some JNull) = Inr (reject ''Duration is required'')"
| "validateDuration (Some duration) =
     (if duration = JStr [] then Inr (reject ''Duration is required'')
      else case js_String duration of
        Inl e \<Rightarrow> Inl e
      | Inr str \<Rightarrow>
          (let durationStr = trim str in
           if \<not> matches DURATION_REGEX durationStr
           then Inr (reject ''Duration must be a positive number (e.g., 120)'')
           else let numValue = digits_val durationStr in
             if numValue \<le> 0 then Inr (reject ''Duration must be greater than 0'')
             else if numValue > 1440
             then Inr (reject ''Duration cannot exceed 24 hours (1440 minutes)'')
             else Inr accept))"

fun validateTag :: "jsval \<Rightarrow> vresult" where
  "validateTag (Some (JStr tag)) =
     (if tag = [] then reject ''Tag is required''
      else let trimmed = trim tag in
        if length trimmed < 3 then reject ''Tag must be at least 3 characters''
        else if length trimmed > 30 then reject ''Tag must not exceed 30 characters''
        else if \<not> matches TAG_REGEX trimmed
        then reject ''Tag can only contain letters, spaces, or hyphens''
        else accept)"
| "validateTag v = reject ''Tag is required''"

definition validatePriority :: "jsval \<Rightarrow> vresult" where
  "validatePriority priority =
     (if \<not> truthy priority \<or>
         priority \<notin> set [Some (JStr ''High''), Some (JStr ''Medium''), Some (JStr ''Low'')]
      then reject ''Priority must be High, Medium, or Low''
      else accept)"

section \<open>What a pattern denotes\<close>

text \<open>The strings a regular expression matches, as the usual inductive definition.\<close>

inductive in_lang :: "rx \<Rightarrow> string \<Rightarrow> bool" where
  l_empty: "in_lang Empty []"
| l_cls: "p c \<Longrightarrow> in_lang (Cls p) [c]"
| l_alt1: "in_lang a s \<Longrightarrow> in_lang (Alt a b) s"
| l_alt2: "in_lang b s \<Longrightarrow> in_lang (Alt a b) s"
| l_seq: "in_lang a u \<Longrightarrow> in_lang b v \<Longrightarrow> in_lang (Seq a b) (u @ v)"
| l_rep0: "in_lang (Rep a) []"
| l_rep: "in_lang a u \<Longrightarrow> in_lang (Rep a) v \<Longrightarrow> in_lang (Rep a) (u @ v)"

section \<open>The title rules, in the words of the specification\<close>

text \<open>
  A title as the data model describes it: 3 to 100 characters, no leading or trailing
  white space, no two white-space characters in a row, no immediately repeated word. A
  word is delimited by word boundaries, that is, it is a maximal run of word characters;
  it is immediately repeated when only white space separates it from an equal word,
  letters compared without case.
\<close>

fun has_double_space :: "string \<Rightarrow> bool" where
  "has_double_space (c # d # cs) = ((is_space c \<and> is_space d) \<or> has_double_space (d # cs))"
| "has_double_space cs = False"

definition word_at :: "string \<Rightarrow> nat \<Rightarrow> nat \<Rightarrow> bool" where
  "word_at s i n =
     (1 \<le> n \<and> i + n \<le> length s \<and> list_all is_word_char (slice s i n) \<and>
      (i = 0 \<or> \<not> word_char_at s (i - 1)) \<and> \<not> word_char_at s (i + n))"

definition repeated_word_at :: "string \<Rightarrow> nat \<Rightarrow> nat \<Rightarrow> nat \<Rightarrow> bool" where
  "repeated_word_at s i n m =
     (word_at s i n \<and> 1 \<le> m \<and> list_all is_space (slice s (i + n) m) \<and>
      word_at s (i + n + m) n \<and>
      map to_upper (slice s (i + n + m) n) = map to_upper (slice s i n))"

definition has_repeated_word :: "string \<Rightarrow> bool" where
  "has_repeated_word s =
     list_ex (\<lambda>i. list_ex (\<lambda>n. list_ex (\<lambda>m. repeated_word_at s i n m) [1..<Suc (length s)])
                          [1..<Suc (length s)])
             [0..<length s]"

definition spec_title_ok :: "string \<Rightarrow> bool" where
  "spec_title_ok s =
     (3 \<le> length s \<and> length s \<le> 100 \<and>
      \<not> is_space (hd s) \<and> \<not> is_space (last s) \<and>
      \<not> has_double_space s \<and> \<not> has_repeated_word s)"

section \<open>Dates\<close>

text \<open>
  A Date object is modelled by its civil fields in one time zone: year, month index (0 to
  11), day of the month and milliseconds since midnight. The zone's offset from UTC is
  taken to be fixed, so that the order of two instants is the lexicographic order of their
  fields in that zone.
\<close>

record date =
  fullYear :: int
  monthIndex :: int
  dayOfMonth :: int
  msOfDay :: int

definition is_leap :: "int \<Rightarrow> bool" where
  "is_leap y = ((y mod 4 = 0 \<and> y mod 100 \<noteq> 0) \<or> y mod 400 = 0)"

definition days_in_month :: "int \<Rightarrow> int \<Rightarrow> int" where
  "days_in_month y m =
     (if m = 1 then (if is_leap y then 29 else 28)
      else if m = 3 \<or> m = 5 \<or> m = 8 \<or> m = 10 then 30
      else 31)"

text \<open>
  A day of the month beyond the month's last day runs on into the following months, as
  the Date constructor and its setters have it (30 February 2024 is 1 March 2024).
\<close>

function carry_days :: "int \<Rightarrow> int \<Rightarrow> int \<Rightarrow> int \<times> int \<times> int" where
  "carry_days y m d =
     (if days_in_month y m < d
      then (if 11 \<le> m then carry_days (y + 1) 0 (d - days_in_month y m)
            else carry_days y (m + 1) (d - days_in_month y m))
      else (y, m, d))"
  by pat_completeness auto
termination
  by (relation "measure (\<lambda>(y, m, d). nat d)") (auto simp: days_in_month_def split: if_splits)

declare carry_days.simps [simp del]

definition make_date :: "int \<Rightarrow> int \<Rightarrow> int \<Rightarrow> int \<Rightarrow> date" where
  "make_date y m d ms =
     (case carry_days (y + m div 12) (m mod 12) d of
        (y', m', d') \<Rightarrow> \<lparr>fullYear = y', monthIndex = m', dayOfMonth = d', msOfDay = ms\<rparr>)"

text \<open>
  \<^verbatim>\<open>new Date(year, monthIndex, day)\<close>: midnight of that day in local time, for a day of at
  least 1; a year from 0 to 99 stands for 1900 + year.
\<close>

definition new_Date_ymd :: "int \<Rightarrow> int \<Rightarrow> int \<Rightarrow> date" where
  "new_Date_ymd y m d = make_date (if 0 \<le> y \<and> y \<le> 99 then 1900 + y else y) m d 0"

definition setFullYear :: "int \<Rightarrow> date \<Rightarrow> date" where
  "setFullYear y dt = make_date y (monthIndex dt) (dayOfMonth dt) (msOfDay dt)"

definition setDate :: "int \<Rightarrow> date \<Rightarrow> date" where
  "setDate d dt = make_date (fullYear dt) (monthIndex dt) d (msOfDay dt)"

text \<open>\<^verbatim>\<open>setHours(0, 0, 0, 0)\<close>\<close>

definition setHours0 :: "date \<Rightarrow> date" where
  "setHours0 dt = dt\<lparr>msOfDay := 0\<rparr>"

text \<open>\<^verbatim>\<open>a < b\<close> on two Date objects of the same zone.\<close>

definition date_lt :: "date \<Rightarrow> date \<Rightarrow> bool" where
  "date_lt a b =
     (fullYear a < fullYear b \<or>
      (fullYear a = fullYear b \<and>
       (monthIndex a < monthIndex b \<or>
        (monthIndex a = monthIndex b \<and>
         (dayOfMonth a < dayOfMonth b \<or>
          (dayOfMonth a = dayOfMonth b \<and> msOfDay a < msOfDay b))))))"

text \<open>\<^verbatim>\<open>s.split(c)\<close>\<close>

fun split_on :: "char \<Rightarrow> string \<Rightarrow> string list" where
  "split_on c [] = [[]]"
| "split_on c (x # xs) =
     (if x = c then [] # split_on c xs
      else (case split_on c xs of
              [] \<Rightarrow> [[x]]
            | w # ws \<Rightarrow> (x # w) # ws))"

text \<open>
  \<open>validateDueDate\<close> reads the clock twice for its two bounds (a third reading, \<^verbatim>\<open>today\<close>,
  is never used); the two readings are the arguments \<open>now1\<close> and \<open>now2\<close>. \<^verbatim>\<open>Number\<close> of a
  group of digits is its decimal value; the destructuring takes the first three parts, and
  with fewer parts the date is invalid.
\<close>

fun validateDueDate :: "date \<Rightarrow> date \<Rightarrow> jsval \<Rightarrow> vresult" where
  "validateDueDate now1 now2 (Some (JStr date)) =
     (if date = [] then reject ''Due date is required''
      else let trimmed = trim date in
        if \<not> matches DATE_REGEX trimmed then reject ''Date must be in YYYY-MM-DD format''
        else (case map digits_val (split_on CHR ''-'' trimmed) of
          year # month # day # rest \<Rightarrow>
            (let dateObj = new_Date_ymd year (month - 1) day in
             if fullYear dateObj \<noteq> year \<or> monthIndex dateObj \<noteq> month - 1 \<or>
                dayOfMonth dateObj \<noteq> day
             then reject ''Invalid date (e.g., Feb 30 does not exist)''
             else let oneYearAgo = setHours0 (setFullYear (fullYear now1 - 1) now1) in
               if date_lt dateObj oneYearAgo
               then reject ''Date cannot be more than 1 year in the past''
               else let twoYearsFromNow = setFullYear (fullYear now2 + 2) now2 in
                 if date_lt twoYearsFromNow dateObj
                 then reject ''Date cannot be more than 2 years in the future''
                 else accept)
        | _ \<Rightarrow> reject ''Invalid date (e.g., Feb 30 does not exist)''))"
| "validateDueDate now1 now2 v = reject ''Due date is required''"

text \<open>
  \<^verbatim>\<open>new Date(s)\<close> on a string in the date-only ISO form \<^verbatim>\<open>YYYY-MM-DD\<close> that names a day of
  the calendar is midnight of that day in UTC. Strings in other forms are parsed by rules
  of the engine's own and are not modelled: they, and values that are not strings, count
  as an Invalid Date (\<open>None\<close>), which every comparison answers with false.
\<close>

definition parse_iso_date :: "string \<Rightarrow> date option" where
  "parse_iso_date s =
     (if matches DATE_REGEX s
      then (case map digits_val (split_on CHR ''-'' s) of
              [y, m, d] \<Rightarrow>
                if d \<le> days_in_month y (m - 1)
                then Some \<lparr>fullYear = y, monthIndex = m - 1, dayOfMonth = d, msOfDay = 0\<rparr>
                else None
            | _ \<Rightarrow> None)
      else None)"

definition next_day :: "date \<Rightarrow> date" where
  "next_day dt = make_date (fullYear dt) (monthIndex dt) (dayOfMonth dt + 1) (msOfDay dt)"

definition prev_day :: "date \<Rightarrow> date" where
  "prev_day dt =
     (if 1 < dayOfMonth dt then dt\<lparr>dayOfMonth := dayOfMonth dt - 1\<rparr>
      else if 0 < monthIndex dt
      then dt\<lparr>monthIndex := monthIndex dt - 1,
              dayOfMonth := days_in_month (fullYear dt) (monthIndex dt - 1)\<rparr>
      else dt\<lparr>fullYear := fullYear dt - 1, monthIndex := 11, dayOfMonth := 31\<rparr>)"

text \<open>
  The local fields of an instant given by its UTC fields, in a zone \<open>offset\<close> minutes ahead
  of UTC (less than a day either way).
\<close>

definition to_local :: "int \<Rightarrow> date \<Rightarrow> date" where
  "to_local offset dt =
     (let t = msOfDay dt + offset * 60000 in
      if t < 0 then (prev_day dt)\<lparr>msOfDay := t + 86400000\<rparr>
      else if 86400000 \<le> t then (next_day dt)\<lparr>msOfDay := t - 86400000\<rparr>
      else dt\<lparr>msOfDay := t\<rparr>)"

fun new_Date_of :: "int \<Rightarrow> jsval \<Rightarrow> date option" where
  "new_Date_of offset (Some (JStr s)) = map_option (to_local offset) (parse_iso_date s)"
| "new_Date_of offset v = None"

text \<open>\<^verbatim>\<open>a >= b\<close> and \<^verbatim>\<open>a <= b\<close> where \<open>a\<close> may be an Invalid Date.\<close>

fun date_ge :: "date option \<Rightarrow> date \<Rightarrow> bool" where
  "date_ge None b = False"
| "date_ge (Some a) b = (\<not> date_lt a b)"

fun date_le :: "date option \<Rightarrow> date \<Rightarrow> bool" where
  "date_le None b = False"
| "date_le (Some a) b = (\<not> date_lt b a)"

section \<open>Queries\<close>

text \<open>\<^verbatim>\<open>xs.filter(p)\<close> with a callback that may throw.\<close>

fun filter_e :: "('a \<Rightarrow> js_error + bool) \<Rightarrow> 'a list \<Rightarrow> js_error + 'a list" where
  "filter_e p [] = Inr []"
| "filter_e p (x # xs) =
     (case p x of
        Inl e \<Rightarrow> Inl e
      | Inr b \<Rightarrow>
          (case filter_e p xs of
             Inl e \<Rightarrow> Inl e
           | Inr ys \<Rightarrow> Inr (if b then x # ys else ys)))"

text \<open>\<^verbatim>\<open>(t) => !t.completed\<close>\<close>

definition not_completed :: "json \<Rightarrow> js_error + bool" where
  "not_completed t =
     (case get_prop (Some t) ''completed'' of
        Inl e \<Rightarrow> Inl e
      | Inr c \<Rightarrow> Inr (\<not> truthy c))"

text \<open>
  \<open>getTasksDueInDays\<close>, in a zone \<open>offset\<close> minutes ahead of UTC, with the clock reading
  \<open>now\<close> in local time and a number of days that is a natural number (every call in the
  planner passes 7). An exception in the callback is caught and gives the empty list.
\<close>

definition due_in_window :: "int \<Rightarrow> date \<Rightarrow> date \<Rightarrow> json \<Rightarrow> js_error + bool" where
  "due_in_window offset today futureDate t =
     (case get_prop (Some t) ''dueDate'' of
        Inl e \<Rightarrow> Inl e
      | Inr dd \<Rightarrow>
          (let dueDate = new_Date_of offset dd in
           case get_prop (Some t) ''completed'' of
             Inl e \<Rightarrow> Inl e
           | Inr c \<Rightarrow> Inr (date_ge dueDate today \<and> date_le dueDate futureDate \<and> \<not> truthy c)))"

definition getTasksDueInDays :: "int \<Rightarrow> date \<Rightarrow> nat \<Rightarrow> storage \<Rightarrow> json list" where
  "getTasksDueInDays offset now days st =
     (let tasks = loadTasks st;
          today = setHours0 now;
          futureDate = setDate (dayOfMonth today + int days) today
      in case filter_e (due_in_window offset today futureDate) tasks of
           Inl e \<Rightarrow> []
         | Inr ts \<Rightarrow> ts)"

section \<open>Import\<close>

record import_result =
  success :: bool
  message :: string

definition failure :: "string \<Rightarrow> import_result" where
  "failure msg = \<lparr>success = False, message = msg\<rparr>"

text \<open>The text of \<^verbatim>\<open>error.message\<close> is the engine's; it is left abstract.\<close>

definition error_message :: "js_error \<Rightarrow> string" where
  "error_message e = ''TypeError''"

definition requiredFields :: "string list" where
  "requiredFields = [''id'', ''title'', ''dueDate'', ''duration'', ''tag'']"

text \<open>
  \<^verbatim>\<open>field in task\<close> for one of the required fields: an own property of an object (no
  prototype defines one of the five names), never a property of an array, and a TypeError
  when the task is not an object at all.
\<close>

fun has_field :: "json \<Rightarrow> string \<Rightarrow> js_error + bool" where
  "has_field (JObj kvs) k = Inr (k \<in> set (map fst kvs))"
| "has_field (JArr xs) k = Inr False"
| "has_field v k = Inl TypeError"

fun missing_in :: "json \<Rightarrow> string list \<Rightarrow> js_error + string option" where
  "missing_in t [] = Inr None"
| "missing_in t (f # fs) =
     (case has_field t f of
        Inl e \<Rightarrow> Inl e
      | Inr b \<Rightarrow> if b then missing_in t fs else Inr (Some f))"

fun first_missing :: "json list \<Rightarrow> js_error + string option" where
  "first_missing [] = Inr None"
| "first_missing (t # ts) =
     (case missing_in t requiredFields of
        Inl e \<Rightarrow> Inl e
      | Inr (Some f) \<Rightarrow> Inr (Some f)
      | Inr None \<Rightarrow> first_missing ts)"

text \<open>\<^verbatim>\<open>typeof v === "object"\<close>\<close>

fun typeof_object :: "jsval \<Rightarrow> bool" where
  "typeof_object (Some JNull) = True"
| "typeof_object (Some (JArr xs)) = True"
| "typeof_object (Some (JObj kvs)) = True"
| "typeof_object v = False"

definition import_settings :: "jsval \<Rightarrow> storage \<Rightarrow> storage" where
  "import_settings data st =
     (case get_prop data ''settings'' of
        Inr (Some s) \<Rightarrow>
          if truthy (Some s) \<and> typeof_object (Some s) then snd (saveSettings s st) else st
      | _ \<Rightarrow> st)"

definition importData :: "jsval \<Rightarrow> storage \<Rightarrow> import_result \<times> storage" where
  "importData data st =
     (if \<not> truthy data \<or> \<not> typeof_object data then (failure ''Invalid data format'', st)
      else case get_prop data ''tasks'' of
        Inl e \<Rightarrow> (failure (error_message e), st)
      | Inr (Some (JArr ts)) \<Rightarrow>
          (case first_missing ts of
             Inl e \<Rightarrow> (failure (error_message e), st)
           | Inr (Some f) \<Rightarrow> (failure (''Task missing required field: '' @ f), st)
           | Inr None \<Rightarrow>
               (case saveTasks (Some (JArr ts)) st of
                  (False, st') \<Rightarrow> (failure ''Failed to save tasks'', st')
                | (True, st') \<Rightarrow>
                    (\<lparr>success = True,
                      message = ''Successfully imported '' @ show_nat (length ts) @ '' tasks''\<rparr>,
                     import_settings data st')))
      | Inr v \<Rightarrow> (failure ''Missing or invalid tasks array'', st))"

section \<open>Search and highlighting\<close>

text \<open>
  A compiled pattern belongs to the engine. It is modelled by what \<^verbatim>\<open>exec\<close> finds in a
  string: the first match, as its start and its length, if there is one. The planner
  compiles its patterns with the flags "" or "i", never "g" or "y", so a pattern keeps no
  state between calls and \<^verbatim>\<open>replace\<close> replaces the first match only.
\<close>

type_synonym regexp = "string \<Rightarrow> (nat \<times> nat) option"

fun to_string :: "jsval \<Rightarrow> js_error + string" where
  "to_string None = Inr ''undefined''"
| "to_string (Some j) = js_String j"

definition js_test :: "regexp \<Rightarrow> jsval \<Rightarrow> js_error + bool" where
  "js_test regex v =
     (case to_string v of
        Inl e \<Rightarrow> Inl e
      | Inr s \<Rightarrow> Inr (regex s \<noteq> None))"

text \<open>\<^verbatim>\<open>a || b\<close> on two tests: the second is not run when the first answers true.\<close>

definition or_else :: "js_error + bool \<Rightarrow> js_error + bool \<Rightarrow> js_error + bool" where
  "or_else a b =
     (case a of
        Inl e \<Rightarrow> Inl e
      | Inr x \<Rightarrow> if x then Inr True else b)"

text \<open>
  The pattern compiled from a string of letters and digits, which matches that string
  itself; with the flag "i" letters are compared without case.
\<close>

fun find_literal :: "bool \<Rightarrow> string \<Rightarrow> string \<Rightarrow> nat \<Rightarrow> nat option" where
  "find_literal ci p [] i = (if p = [] then Some i else None)"
| "find_literal ci p (c # cs) i =
     (if (if ci then map to_upper (take (length p) (c # cs)) = map to_upper p
          else take (length p) (c # cs) = p)
      then Some i
      else find_literal ci p cs (Suc i))"

definition literal_regexp :: "bool \<Rightarrow> string \<Rightarrow> regexp" where
  "literal_regexp ci p s = map_option (\<lambda>i. (i, length p)) (find_literal ci p s 0)"

definition field_matches :: "regexp \<Rightarrow> json \<Rightarrow> js_error + bool" where
  "field_matches regex t =
     (case (get_prop (Some t) ''title'', get_prop (Some t) ''tag'',
            get_prop (Some t) ''dueDate'', get_prop (Some t) ''status'',
            get_prop (Some t) ''location'') of
        (Inr title, Inr tag, Inr dueDate, Inr status, Inr location) \<Rightarrow>
          or_else (js_test regex title)
            (or_else (js_test regex tag)
              (or_else (js_test regex dueDate)
                (or_else (js_test regex (Some (or_default status (JStr []))))
                  (js_test regex (Some (or_default location (JStr [])))))))
      | _ \<Rightarrow> Inl TypeError)"

text \<open>\<open>filterTasksByRegex\<close> returns the tasks it hands to \<^verbatim>\<open>renderTasks\<close>.\<close>

definition filterTasksByRegex :: "regexp option \<Rightarrow> storage \<Rightarrow> js_error + json list" where
  "filterTasksByRegex regex st =
     (case filter_e not_completed (loadTasks st) of
        Inl e \<Rightarrow> Inl e
      | Inr tasks \<Rightarrow>
          (case regex of
             None \<Rightarrow> Inr tasks
           | Some r \<Rightarrow> filter_e (field_matches r) tasks))"

definition escape_char :: "char \<Rightarrow> string" where
  "escape_char c =
     (if c = CHR ''&'' then ''&amp;''
      else if c = CHR ''<'' then ''&lt;''
      else if c = CHR ''>'' then ''&gt;''
      else if c = CHR 0x22 then ''&quot;''
      else if c = CHR 0x27 then ''&#39;''
      else [c])"

definition escape_html :: "string \<Rightarrow> string" where
  "escape_html s = concat (map escape_char s)"

text \<open>\<^verbatim>\<open>s.replace(regex, (match) => `<mark>${match}</mark>`)\<close>\<close>

definition mark_first :: "regexp \<Rightarrow> string \<Rightarrow> string" where
  "mark_first regex s =
     (case regex s of
        None \<Rightarrow> s
      | Some (i, n) \<Rightarrow> take i s @ ''<mark>'' @ slice s i n @ ''</mark>'' @ drop (i + n) s)"

text \<open>The body runs inside \<^verbatim>\<open>try\<close>; on an exception the text is returned as it came.\<close>

fun highlightMatches :: "jsval \<Rightarrow> regexp option \<Rightarrow> jsval" where
  "highlightMatches text None = text"
| "highlightMatches text (Some regex) =
     (if \<not> truthy text then text
      else case to_string text of
        Inl e \<Rightarrow> text
      | Inr s \<Rightarrow> Some (JStr (mark_first regex (escape_html s))))"

section \<open>Grouping by tag\<close>

text \<open>
  \<^verbatim>\<open>grouped\<close> starts as \<^verbatim>\<open>{}\<close>, an object that inherits from \<^verbatim>\<open>Object.prototype\<close>. Reading
  \<^verbatim>\<open>grouped[key]\<close> finds an own property, or else what the prototype defines under that
  name: a function or an object, which is truthy and has no \<^verbatim>\<open>push\<close>, so that calling
  \<^verbatim>\<open>grouped[key].push(t)\<close> throws a TypeError. The exception is caught and the function
  returns \<^verbatim>\<open>{}\<close>.
\<close>

definition object_prototype_keys :: "string list" where
  "object_prototype_keys =
     [''constructor'', ''hasOwnProperty'', ''isPrototypeOf'', ''propertyIsEnumerable'',
      ''toLocaleString'', ''toString'', ''valueOf'', ''__proto__'',
      ''__defineGetter__'', ''__defineSetter__'', ''__lookupGetter__'', ''__lookupSetter__'']"

definition group_task ::
  "(string \<times> json list) list \<Rightarrow> json \<Rightarrow> js_error + (string \<times> json list) list" where
  "group_task grouped t =
     (case get_prop (Some t) ''tag'' of
        Inl e \<Rightarrow> Inl e
      | Inr tag \<Rightarrow>
          (case to_string tag of
             Inl e \<Rightarrow> Inl e
           | Inr key \<Rightarrow>
               (case map_of grouped key of
                  Some ts \<Rightarrow> Inr (AList.update key (ts @ [t]) grouped)
                | None \<Rightarrow>
                    if key \<in> set object_prototype_keys then Inl TypeError
                    else Inr (AList.update key [t] grouped))))"

fun group_all ::
  "(string \<times> json list) list \<Rightarrow> json list \<Rightarrow> js_error + (string \<times> json list) list" where
  "group_all grouped [] = Inr grouped"
| "group_all grouped (t # ts) =
     (case group_task grouped t of
        Inl e \<Rightarrow> Inl e
      | Inr grouped' \<Rightarrow> group_all grouped' ts)"

definition getTasksByTagGrouped :: "storage \<Rightarrow> (string \<times> json list) list" where
  "getTasksByTagGrouped st =
     (case group_all [] (loadTasks st) of
        Inl e \<Rightarrow> []
      | Inr grouped \<Rightarrow> grouped)"

section \<open>The due-date rules, in the words of the specification\<close>

text \<open>
  A string has the shape \<^verbatim>\<open>YYYY-MM-DD\<close> when it is four digits, a hyphen, two digits, a
  hyphen and two digits; its three numbers are a real calendar date when the month is 1
  to 12 and the day is 1 to the length of that month in that year. The window runs from
  the day one year before today to the day two years after today, both taken from the one
  clock reading \<open>now\<close> by changing its year (29 February becomes 1 March in a year that
  has none).
\<close>

definition iso_shape :: "string \<Rightarrow> bool" where
  "iso_shape t =
     (length t = 10 \<and> list_all is_digit (slice t 0 4) \<and> slice t 4 1 = ''-'' \<and>
      list_all is_digit (slice t 5 2) \<and> slice t 7 1 = ''-'' \<and> list_all is_digit (slice t 8 2))"

definition year_of :: "string \<Rightarrow> int" where
  "year_of t = digits_val (slice t 0 4)"

definition month_of :: "string \<Rightarrow> int" where
  "month_of t = digits_val (slice t 5 2)"

definition day_of :: "string \<Rightarrow> int" where
  "day_of t = digits_val (slice t 8 2)"

definition real_calendar_date :: "int \<Rightarrow> int \<Rightarrow> int \<Rightarrow> bool" where
  "real_calendar_date y m d = (1 \<le> m \<and> m \<le> 12 \<and> 1 \<le> d \<and> d \<le> days_in_month y (m - 1))"

text \<open>A calendar day as year, month index and day of the month, and the order of days.\<close>

definition civil_day :: "date \<Rightarrow> int \<times> int \<times> int" where
  "civil_day dt = (fullYear dt, monthIndex dt, dayOfMonth dt)"

fun day_lt :: "int \<times> int \<times> int \<Rightarrow> int \<times> int \<times> int \<Rightarrow> bool" where
  "day_lt (y, m, d) (y', m', d') = (y < y' \<or> (y = y' \<and> (m < m' \<or> (m = m' \<and> d < d'))))"

definition spec_in_window :: "date \<Rightarrow> int \<times> int \<times> int \<Rightarrow> bool" where
  "spec_in_window now day =
     (\<not> day_lt day (civil_day (setFullYear (fullYear now - 1) now)) \<and>
      \<not> day_lt (civil_day (setFullYear (fullYear now + 2) now)) day)"

definition spec_due_date_ok :: "date \<Rightarrow> string \<Rightarrow> bool" where
  "spec_due_date_ok now t =
     (iso_shape t \<and> real_calendar_date (year_of t) (month_of t) (day_of t) \<and>
      spec_in_window now (year_of t, month_of t - 1, day_of t))"

text \<open>A clock reading: a day of the calendar and a time of day.\<close>

definition valid_clock :: "date \<Rightarrow> bool" where
  "valid_clock now =
     (0 \<le> monthIndex now \<and> monthIndex now \<le> 11 \<and>
      1 \<le> dayOfMonth now \<and> dayOfMonth now \<le> days_in_month (fullYear now) (monthIndex now) \<and>
      0 \<le> msOfDay now \<and> msOfDay now < 86400000)"

text \<open>The pairs of characters the month group and the day group of the date pattern admit.\<close>

definition month_chars :: "char \<Rightarrow> char \<Rightarrow> bool" where
  "month_chars a b =
     ((a = CHR ''0'' \<and> b \<in> set ''123456789'') \<or> (a = CHR ''1'' \<and> b \<in> set ''012''))"

definition day_chars :: "char \<Rightarrow> char \<Rightarrow> bool" where
  "day_chars a b =
     ((a = CHR ''0'' \<and> b \<in> set ''123456789'') \<or> (a \<in> set ''12'' \<and> is_digit b) \<or>
      (a = CHR ''3'' \<and> b \<in> set ''01''))"

section \<open>Sorting\<close>

text \<open>\<^verbatim>\<open>toLowerCase\<close> on code units below 256.\<close>

definition to_lower :: "char \<Rightarrow> char" where
  "to_lower c =
     (if (65 \<le> (of_char c :: nat) \<and> (of_char c :: nat) \<le> 90) \<or>
         (192 \<le> (of_char c :: nat) \<and> (of_char c :: nat) \<le> 222 \<and> (of_char c :: nat) \<noteq> 215)
      then char_of ((of_char c :: nat) + 32) else c)"

text \<open>
  \<^verbatim>\<open>parseInt(v)\<close>: the string of \<open>v\<close> without leading white space, an optional sign, then
  the longest run of digits (hexadecimal ones after \<^verbatim>\<open>0x\<close>); \<open>None\<close> is NaN.
\<close>

definition hex_digit_val :: "char \<Rightarrow> int" where
  "hex_digit_val c =
     (if is_digit c then digit_val c
      else if 97 \<le> (of_char c :: nat) then int (of_char c) - 87
      else int (of_char c) - 55)"

definition is_hex_digit :: "char \<Rightarrow> bool" where
  "is_hex_digit c =
     (is_digit c \<or> (65 \<le> (of_char c :: nat) \<and> (of_char c :: nat) \<le> 70) \<or>
      (97 \<le> (of_char c :: nat) \<and> (of_char c :: nat) \<le> 102))"

definition unsigned_parseInt :: "string \<Rightarrow> int option" where
  "unsigned_parseInt r =
     (if take 2 r = ''0x'' \<or> take 2 r = ''0X''
      then (let ds = takeWhile is_hex_digit (drop 2 r) in
            if ds = [] then None else Some (foldl (\<lambda>acc c. 16 * acc + hex_digit_val c) 0 ds))
      else (let ds = takeWhile is_digit r in
            if ds = [] then None else Some (digits_val ds)))"

definition js_parseInt :: "jsval \<Rightarrow> js_error + int option" where
  "js_parseInt v =
     (case to_string v of
        Inl e \<Rightarrow> Inl e
      | Inr s \<Rightarrow>
          (case dropWhile is_space s of
             [] \<Rightarrow> Inr None
           | c # cs \<Rightarrow>
               if c = CHR ''-'' then Inr (map_option uminus (unsigned_parseInt cs))
               else if c = CHR ''+'' then Inr (unsigned_parseInt cs)
               else Inr (unsigned_parseInt (c # cs))))"

text \<open>
  The value the comparator computes for a task: a Date, a lower-case title or a number.
  \<^verbatim>\<open>a.title.toLowerCase()\<close> throws a TypeError unless the title is a string. A due date
  that is a string is parsed as in \<open>parse_iso_date\<close>; the planner stores no other due
  dates, and other values count as an Invalid Date.
\<close>

datatype sort_key = KDate "date option" | KStr string | KNum "int option"

definition sort_key :: "string \<Rightarrow> json \<Rightarrow> js_error + sort_key" where
  "sort_key field t =
     (if field = ''dueDate'' then
        (case get_prop (Some t) ''dueDate'' of
           Inl e \<Rightarrow> Inl e
         | Inr (Some (JStr s)) \<Rightarrow> Inr (KDate (parse_iso_date s))
         | Inr v \<Rightarrow> Inr (KDate None))
      else if field = ''title'' then
        (case get_prop (Some t) ''title'' of
           Inr (Some (JStr s)) \<Rightarrow> Inr (KStr (map to_lower s))
         | _ \<Rightarrow> Inl TypeError)
      else
        (case get_prop (Some t) ''duration'' of
           Inl e \<Rightarrow> Inl e
         | Inr v \<Rightarrow>
             (case js_parseInt v of
                Inl e \<Rightarrow> Inl e
              | Inr n \<Rightarrow> Inr (KNum n))))"

text \<open>
  \<^verbatim>\<open>aVal > bVal\<close>: on dates and numbers false when either is invalid or NaN; on strings
  the order of the code units.
\<close>

fun key_gt :: "sort_key \<Rightarrow> sort_key \<Rightarrow> bool" where
  "key_gt (KDate (Some a)) (KDate (Some b)) = date_lt b a"
| "key_gt (KStr a) (KStr b) = (b < a)"
| "key_gt (KNum (Some a)) (KNum (Some b)) = (b < a)"
| "key_gt a b = False"

definition compare_tasks :: "string \<Rightarrow> string \<Rightarrow> json \<Rightarrow> json \<Rightarrow> js_error + int" where
  "compare_tasks field order a b =
     (if field \<noteq> ''dueDate'' \<and> field \<noteq> ''title'' \<and> field \<noteq> ''duration'' then Inr 0
      else case sort_key field a of
        Inl e \<Rightarrow> Inl e
      | Inr aVal \<Rightarrow>
          (case sort_key field b of
             Inl e \<Rightarrow> Inl e
           | Inr bVal \<Rightarrow>
               Inr (if order = ''asc'' then (if key_gt aVal bVal then 1 else - 1)
                    else (if key_gt bVal aVal then 1 else - 1))))"

text \<open>
  \<^verbatim>\<open>Array.prototype.sort\<close> is the engine's and is an argument of \<open>sortTasks\<close>: a function
  from a comparator and a list to a list. The comparator throws exactly when one of its
  two tasks has no key; an engine that sorts two or more elements hands each of them to
  the comparator, so the sort throws when one of the tasks has no key. \<open>sortTasks\<close>
  returns the sequence it hands to \<^verbatim>\<open>renderTasks\<close>.
\<close>

definition comparator :: "string \<Rightarrow> string \<Rightarrow> json \<Rightarrow> json \<Rightarrow> int" where
  "comparator field order a b =
     (case compare_tasks field order a b of Inl e \<Rightarrow> 0 | Inr v \<Rightarrow> v)"

definition sortTasks ::
  "((json \<Rightarrow> json \<Rightarrow> int) \<Rightarrow> json list \<Rightarrow> json list) \<Rightarrow> string \<Rightarrow> string \<Rightarrow> storage \<Rightarrow>
   js_error + json list" where
  "sortTasks engine_sort field order st =
     (case filter_e not_completed (loadTasks st) of
        Inl e \<Rightarrow> Inl e
      | Inr tasks \<Rightarrow>
          if 2 \<le> length tasks \<and>
             list_ex (\<lambda>a. list_ex (\<lambda>b. isl (compare_tasks field order a b)) tasks) tasks
          then Inl TypeError
          else Inr (engine_sort (comparator field order) tasks))"

text \<open>
  What a sort returns: the same elements, none placed after one that the comparator puts
  it before.
\<close>

definition sorts_by :: "(json \<Rightarrow> json \<Rightarrow> int) \<Rightarrow> json list \<Rightarrow> json list \<Rightarrow> bool" where
  "sorts_by cmp xs ys = (mset ys = mset xs \<and> sorted_wrt (\<lambda>a b. cmp a b \<le> 0) ys)"

text \<open>
  A sequence is sorted with no two keys equal when the comparator puts each element
  before every later one and every later one after it.
\<close>

definition strictly_sorted_by :: "(json \<Rightarrow> json \<Rightarrow> int) \<Rightarrow> json list \<Rightarrow> bool" where
  "strictly_sorted_by cmp xs = sorted_wrt (\<lambda>a b. cmp a b < 0 \<and> 0 < cmp b a) xs"

text \<open>
  One engine: an insertion sort that asks the comparator about the element to place and
  an element already placed, in this order, and places the new element before the first
  one it is told to precede. V8 calls the comparator in this order on short arrays.
\<close>

fun insert_by :: "(json \<Rightarrow> json \<Rightarrow> int) \<Rightarrow> json \<Rightarrow> json list \<Rightarrow> json list" where
  "insert_by cmp x [] = [x]"
| "insert_by cmp x (y # ys) = (if cmp x y < 0 then x # y # ys else y # insert_by cmp x ys)"

definition insertion_sort :: "(json \<Rightarrow> json \<Rightarrow> int) \<Rightarrow> json list \<Rightarrow> json list" where
  "insertion_sort cmp xs = foldl (\<lambda>acc x. insert_by cmp x acc) [] xs"

section \<open>Properties of the object operations\<close>

lemma map_of_fold_update:
  "distinct (map fst src) \<Longrightarrow>
   map_of (fold (\<lambda>(k, v). AList.update k v) src base) x =
     (case map_of src x of None \<Rightarrow> map_of base x | Some v \<Rightarrow> Some v)"
proof (induction src arbitrary: base)
  case Nil
  then show ?case by simp
next
  case (Cons p ps)
  obtain k v where p: "p = (k, v)" by (cases p)
  from Cons.prems p have nk: "map_of ps k = None" and d: "distinct (map fst ps)"
    by (auto simp: map_of_eq_None_iff)
  show ?case using Cons.IH[OF d, of "AList.update k v base"] nk
    by (auto simp: p AList.update_conv' split: option.splits)
qed

lemma map_of_spread_into:
  "map_of (spread_into base src) x =
     (case map_of src x of None \<Rightarrow> map_of base x | Some v \<Rightarrow> Some v)"
  unfolding spread_into_def
  by (simp add: map_of_fold_update AList.distinct_clearjunk AList.map_of_clearjunk)

lemma has_own_None: "\<not> has_own v k \<Longrightarrow> map_of (own_props v) k = None"
  by (simp add: has_own_def map_of_eq_None_iff)

section \<open>The completed/status invariant (C1)\<close>

lemma task_inv_new_task:
  "status \<noteq> Some (JStr ''Completed'') \<Longrightarrow>
   task_inv (JObj (new_task ident created updated taskData status))"
  by (cases status rule: truthy.cases) (auto simp: new_task_def AList.update_conv')

lemma task_inv_merged_plain:
  assumes "task_inv t" "\<not> has_own updates ''status''" "\<not> has_own updates ''completed''"
  shows "task_inv (merged_task t updates updated)"
proof -
  from assms(1) obtain kvs where t: "t = JObj kvs" by (cases t) auto
  show ?thesis using assms
    by (auto simp: t merged_task_def AList.update_conv' map_of_spread_into has_own_None
        split: option.splits)
qed

lemma task_inv_merged_set:
  assumes "map_of (own_props updates) ''status'' = Some s"
    and "map_of (own_props updates) ''completed'' = Some c"
    and "(c = JBool True) = (s = JStr ''Completed'')"
  shows "task_inv (merged_task t updates updated)"
  using assms
  by (simp add: merged_task_def AList.update_conv' map_of_spread_into)

lemma findIndex_id_less: "findIndex_id ts ident = Inr (Some i) \<Longrightarrow> i < length ts"
  by (induction ts arbitrary: i) (auto split: sum.splits option.splits if_splits)

lemma loadTasks_saved:
  "loadTasks (st\<lparr>tasks_item := Some (Json (JArr ts)), version_item := v\<rparr>) = ts"
  by (simp add: loadTasks_def)

lemma updateTask_inv:
  assumes "store_inv st" "\<And>t. task_inv t \<Longrightarrow> task_inv (merged_task t updates updated)"
  shows "store_inv (snd (updateTask updated ident updates st)) \<and>
         produced_inv (fst (updateTask updated ident updates st))"
proof (cases "findIndex_id (loadTasks st) ident")
  case (Inl e)
  then show ?thesis using assms(1) by (simp add: updateTask_def produced_inv_def)
next
  case (Inr r)
  show ?thesis
  proof (cases r)
    case None
    then show ?thesis using assms(1) Inr by (simp add: updateTask_def produced_inv_def)
  next
    case (Some i)
    let ?ts = "loadTasks st"
    from Inr Some have i: "i < length ?ts" by (auto dest: findIndex_id_less)
    from assms(1) have all: "list_all task_inv ?ts" by (simp add: store_inv_def)
    then have "task_inv (?ts ! i)" using i by (simp add: list_all_length)
    then have m: "task_inv (merged_task (?ts ! i) updates updated)" by (rule assms(2))
    have all': "list_all task_inv (?ts[i := merged_task (?ts ! i) updates updated])"
      using all m by (auto simp: list_all_iff dest: subsetD[OF set_update_subset_insert])
    obtain kvs where k: "merged_task (?ts ! i) updates updated = JObj kvs"
      using m by (cases "merged_task (?ts ! i) updates updated") auto
    show ?thesis
    proof (cases "quota_ok st")
      case True
      then show ?thesis using Inr Some all' m k
        by (simp add: updateTask_def Let_def store_inv_def produced_inv_def loadTasks_saved)
    next
      case False
      then show ?thesis using Inr Some assms(1)
        by (simp add: updateTask_def Let_def produced_inv_def)
    qed
  qed
qed

lemma addTask_inv:
  assumes "store_inv st" "get_prop taskData ''status'' \<noteq> Inr (Some (JStr ''Completed''))"
  shows "store_inv (snd (addTask ident created updated taskData st)) \<and>
         produced_inv (fst (addTask ident created updated taskData st))"
proof (cases "get_prop taskData ''status''")
  case (Inl e)
  then show ?thesis using assms(1) by (simp add: addTask_def produced_inv_def)
next
  case (Inr status)
  with assms(2) have "status \<noteq> Some (JStr ''Completed'')" by simp
  then have n: "task_inv (JObj (new_task ident created updated taskData status))"
    by (rule task_inv_new_task)
  from assms(1) have all: "list_all task_inv (loadTasks st)" by (simp add: store_inv_def)
  show ?thesis
  proof (cases "quota_ok st")
    case True
    then show ?thesis using Inr all n
      by (simp add: addTask_def Let_def store_inv_def produced_inv_def loadTasks_saved
          del: task_inv.simps)
  next
    case False
    then show ?thesis using Inr assms(1)
      by (simp add: addTask_def Let_def produced_inv_def)
  qed
qed

lemma completeTask_inv:
  "store_inv st \<Longrightarrow>
   store_inv (snd (completeTask c u i st)) \<and> produced_inv (fst (completeTask c u i st))"
  unfolding completeTask_def
  by (rule updateTask_inv) (auto intro: task_inv_merged_set)

lemma uncompleteTask_inv:
  "store_inv st \<Longrightarrow>
   store_inv (snd (uncompleteTask u i st)) \<and> produced_inv (fst (uncompleteTask u i st))"
  unfolding uncompleteTask_def
  by (rule updateTask_inv) (auto intro: task_inv_merged_set)

lemma reachable_store_inv: "reachable st \<Longrightarrow> store_inv st"
proof (induction rule: reachable.induct)
  case r_init
  then show ?case by (simp add: store_inv_def empty_storage_def loadTasks_def)
next
  case (r_quota st b)
  then show ?case by (simp add: store_inv_def loadTasks_def)
next
  case (r_add st taskData ident created updated)
  then show ?case by (simp add: addTask_inv)
next
  case (r_update st updates updated ident)
  then show ?case by (simp add: updateTask_inv task_inv_merged_plain)
next
  case (r_complete st completedAt updated ident)
  then show ?case by (simp add: completeTask_inv)
next
  case (r_uncomplete st updated ident)
  then show ?case by (simp add: uncompleteTask_inv)
qed

text \<open>
  C1, as the code has it. From an empty store, every store reached by \<open>addTask\<close> (called
  with a status other than "Completed", or none), \<open>updateTask\<close> (called with updates that
  carry neither \<^verbatim>\<open>status\<close> nor \<^verbatim>\<open>completed\<close>), \<open>completeTask\<close> and \<open>uncompleteTask\<close> holds only
  task records on which \<^verbatim>\<open>completed\<close> is true exactly when \<^verbatim>\<open>status\<close> is "Completed", and
  every record these calls return satisfies the same.
\<close>

theorem lifecycle_completed_iff_status:
  assumes "reachable st"
  shows "store_inv st \<and>
    (get_prop taskData ''status'' \<noteq> Inr (Some (JStr ''Completed'')) \<longrightarrow>
       produced_inv (fst (addTask ident created updated taskData st))) \<and>
    (\<not> has_own updates ''status'' \<and> \<not> has_own updates ''completed'' \<longrightarrow>
       produced_inv (fst (updateTask updated tid updates st))) \<and>
    produced_inv (fst (completeTask completedAt updated tid st)) \<and>
    produced_inv (fst (uncompleteTask updated tid st))"
proof -
  have inv: "store_inv st" using assms by (rule reachable_store_inv)
  then show ?thesis
    by (simp add: addTask_inv updateTask_inv task_inv_merged_plain completeTask_inv
        uncompleteTask_inv)
qed

theorem lifecycle_completed_iff_status_witness:
  "reachable (snd (completeTask ''t2'' ''t2'' (Some (JStr ''task_1''))
      (snd (addTask ''task_1'' ''t1'' ''t1'' (Some (JObj [(''title'', JStr ''Essay'')]))
        empty_storage)))) \<and>
   store_inv (snd (completeTask ''t2'' ''t2'' (Some (JStr ''task_1''))
      (snd (addTask ''task_1'' ''t1'' ''t1'' (Some (JObj [(''title'', JStr ''Essay'')]))
        empty_storage)))) \<and>
   loadTasks (snd (completeTask ''t2'' ''t2'' (Some (JStr ''task_1''))
      (snd (addTask ''task_1'' ''t1'' ''t1'' (Some (JObj [(''title'', JStr ''Essay'')]))
        empty_storage)))) =
     [JObj [(''id'', JStr ''task_1''), (''title'', JStr ''Essay''),
            (''status'', JStr ''Completed''), (''completed'', JBool True),
            (''createdAt'', JStr ''t1''), (''updatedAt'', JStr ''t2''),
            (''completedAt'', JStr ''t2'')]]"
proof -
  let ?st = "snd (completeTask ''t2'' ''t2'' (Some (JStr ''task_1''))
      (snd (addTask ''task_1'' ''t1'' ''t1'' (Some (JObj [(''title'', JStr ''Essay'')]))
        empty_storage)))"
  have r: "reachable ?st"
    by (rule r_complete, rule r_add, rule r_init) simp
  have l: "loadTasks ?st =
     [JObj [(''id'', JStr ''task_1''), (''title'', JStr ''Essay''),
            (''status'', JStr ''Completed''), (''completed'', JBool True),
            (''createdAt'', JStr ''t1''), (''updatedAt'', JStr ''t2''),
            (''completedAt'', JStr ''t2'')]]"
    by (simp add: completeTask_def updateTask_def addTask_def new_task_def merged_task_def
        spread_into_def empty_storage_def loadTasks_def Let_def)
  from lifecycle_completed_iff_status[OF r] have "store_inv ?st" by simp
  with r l show ?thesis by simp
qed

text \<open>
  C1 as stated fails: \<open>addTask\<close> copies a caller's status "Completed" and still writes
  \<^verbatim>\<open>completed: false\<close>, and \<open>updateTask\<close> merges whatever it is given.
\<close>

theorem lifecycle_completed_iff_status_counterexample:
  "\<not> store_inv (snd (addTask ''task_1'' ''t1'' ''t1''
       (Some (JObj [(''title'', JStr ''Essay''), (''status'', JStr ''Completed'')]))
       empty_storage)) \<and>
   \<not> store_inv (snd (updateTask ''t2'' (Some (JStr ''task_1''))
       (Some (JObj [(''status'', JStr ''Completed'')]))
       (snd (addTask ''task_1'' ''t1'' ''t1'' (Some (JObj [(''title'', JStr ''Essay'')]))
         empty_storage))))"
  by (simp add: store_inv_def updateTask_def addTask_def new_task_def merged_task_def
      spread_into_def empty_storage_def loadTasks_def Let_def)

section \<open>The derivative matcher decides the language of a pattern\<close>

inductive_cases in_lang_NeverE: "in_lang Never s"
inductive_cases in_lang_EmptyE: "in_lang Empty s"
inductive_cases in_lang_ClsE: "in_lang (Cls p) s"
inductive_cases in_lang_AltE: "in_lang (Alt a b) s"
inductive_cases in_lang_SeqE: "in_lang (Seq a b) s"

lemma in_lang_Never [simp]: "in_lang Never s = False"
  by (auto elim: in_lang_NeverE)

lemma in_lang_Empty [simp]: "in_lang Empty s = (s = [])"
  by (auto elim: in_lang_EmptyE intro: l_empty)

lemma in_lang_Cls: "in_lang (Cls p) s = (\<exists>c. s = [c] \<and> p c)"
  by (auto elim: in_lang_ClsE intro: l_cls)

lemma in_lang_Alt: "in_lang (Alt a b) s = (in_lang a s \<or> in_lang b s)"
  by (auto elim: in_lang_AltE intro: l_alt1 l_alt2)

lemma in_lang_Seq: "in_lang (Seq a b) s = (\<exists>u v. s = u @ v \<and> in_lang a u \<and> in_lang b v)"
  by (blast elim: in_lang_SeqE intro: l_seq)

lemma in_lang_Rep_Cons:
  "in_lang r s \<Longrightarrow> r = Rep a \<Longrightarrow> s = c # w \<Longrightarrow>
   \<exists>u v. w = u @ v \<and> in_lang a (c # u) \<and> in_lang (Rep a) v"
proof (induction arbitrary: w rule: in_lang.induct)
  case (l_rep a' u v)
  show ?case
  proof (cases u)
    case Nil
    with l_rep show ?thesis by simp
  next
    case (Cons d u')
    with l_rep have "w = u' @ v" "in_lang a (c # u')" "in_lang (Rep a) v" by auto
    then show ?thesis by blast
  qed
qed simp_all

lemma nullable_in_lang: "nullable r = in_lang r []"
  by (induction r) (auto simp: in_lang_Cls in_lang_Alt in_lang_Seq intro: l_rep0)

lemma deriv_in_lang: "in_lang (deriv c r) w = in_lang r (c # w)"
proof (induction r arbitrary: w)
  case (Seq a b)
  have "in_lang (Seq a b) (c # w) =
        ((in_lang a [] \<and> in_lang b (c # w)) \<or>
         (\<exists>u v. w = u @ v \<and> in_lang a (c # u) \<and> in_lang b v))"
    by (auto simp: in_lang_Seq Cons_eq_append_conv)
  then show ?case using Seq
    by (auto simp: in_lang_Seq in_lang_Alt nullable_in_lang)
next
  case (Rep a)
  have "in_lang (Rep a) (c # w) = (\<exists>u v. w = u @ v \<and> in_lang a (c # u) \<and> in_lang (Rep a) v)"
  proof
    assume "in_lang (Rep a) (c # w)"
    then show "\<exists>u v. w = u @ v \<and> in_lang a (c # u) \<and> in_lang (Rep a) v"
      by (rule in_lang_Rep_Cons) simp_all
  next
    assume "\<exists>u v. w = u @ v \<and> in_lang a (c # u) \<and> in_lang (Rep a) v"
    then obtain u v where "w = u @ v" "in_lang a (c # u)" "in_lang (Rep a) v" by blast
    then show "in_lang (Rep a) (c # w)" using l_rep[of a "c # u" v] by simp
  qed
  then show ?case using Rep by (simp add: in_lang_Seq)
qed (auto simp: in_lang_Cls in_lang_Alt)

lemma matches_in_lang: "matches r s = in_lang r s"
  unfolding matches_def
  by (induction s arbitrary: r) (simp_all add: nullable_in_lang deriv_in_lang)


section \<open>validateTitle accepts every well-formed title (C3)\<close>

lemma trim_id:
  assumes "s \<noteq> []" "\<not> is_space (hd s)" "\<not> is_space (last s)"
  shows "trim s = s"
proof -
  from assms have a: "dropWhile is_space s = s" by (cases s) auto
  from assms have "rev s \<noteq> []" "\<not> is_space (hd (rev s))" by (auto simp: hd_rev)
  then have "dropWhile is_space (rev s) = rev s" by (cases "rev s") auto
  with a show ?thesis by (simp add: trim_def)
qed

lemma all_in_Rep_Cls: "list_all p u \<Longrightarrow> in_lang (Rep (Cls p)) u"
proof (induction u)
  case Nil
  show ?case by (rule l_rep0)
next
  case (Cons c u)
  then have "in_lang (Cls p) [c]" "in_lang (Rep (Cls p)) u" by (auto intro: l_cls)
  then have "in_lang (Rep (Cls p)) ([c] @ u)" by (rule l_rep)
  then show ?case by simp
qed

lemma rep1_Cons: "p c \<Longrightarrow> in_lang (rep1 (Cls p)) u \<Longrightarrow> in_lang (rep1 (Cls p)) (c # u)"
proof -
  assume c: "p c" and u: "in_lang (rep1 (Cls p)) u"
  from u obtain d w where "u = [d] @ w" "in_lang (Cls p) [d]" "in_lang (Rep (Cls p)) w"
    by (auto simp: rep1_def in_lang_Seq in_lang_Cls)
  then have "in_lang (Rep (Cls p)) u" using l_rep by blast
  with c have "in_lang (Seq (Cls p) (Rep (Cls p))) ([c] @ u)" by (intro l_seq l_cls)
  then show ?thesis by (simp add: rep1_def)
qed

lemma rep1_single: "p c \<Longrightarrow> in_lang (rep1 (Cls p)) [c]"
proof -
  assume "p c"
  then have "in_lang (Seq (Cls p) (Rep (Cls p))) ([c] @ [])" by (intro l_seq l_cls l_rep0)
  then show ?thesis by (simp add: rep1_def)
qed

lemma title_shape_in_lang:
  "s \<noteq> [] \<Longrightarrow> \<not> is_space (hd s) \<Longrightarrow> \<not> is_space (last s) \<Longrightarrow> \<not> has_double_space s \<Longrightarrow>
   in_lang TITLE_REGEX s"
proof (induction "length s" arbitrary: s rule: less_induct)
  case less
  let ?NW = "Cls (\<lambda>c. \<not> is_space c)"
  let ?G = "Seq (Cls is_space) (rep1 ?NW)"
  from less.prems obtain c s' where s: "s = c # s'" and c: "\<not> is_space c" by (cases s) auto
  show ?case
  proof (cases s')
    case Nil
    have "in_lang (Seq (rep1 ?NW) (Rep ?G)) ([c] @ [])"
      using c by (intro l_seq rep1_single l_rep0)
    then show ?thesis by (simp add: s Nil TITLE_REGEX_def)
  next
    case (Cons d s'')
    show ?thesis
    proof (cases "is_space d")
      case False
      have "in_lang TITLE_REGEX s'"
        using less.prems False by (intro less.hyps) (auto simp: s Cons)
      then obtain u v where uv: "s' = u @ v" "in_lang (rep1 ?NW) u" "in_lang (Rep ?G) v"
        by (auto simp: TITLE_REGEX_def in_lang_Seq)
      have "in_lang (rep1 ?NW) (c # u)" using c uv(2) by (intro rep1_Cons)
      then have "in_lang (Seq (rep1 ?NW) (Rep ?G)) ((c # u) @ v)" using uv(3) by (rule l_seq)
      then show ?thesis by (simp add: s uv(1) TITLE_REGEX_def)
    next
      case True
      from less.prems True have ne: "s'' \<noteq> []" by (auto simp: s Cons)
      then obtain e s3 where s3: "s'' = e # s3" by (cases s'') auto
      have "in_lang TITLE_REGEX s''"
        using less.prems True ne by (intro less.hyps) (auto simp: s Cons s3)
      then obtain u v where uv: "s'' = u @ v" "in_lang (rep1 ?NW) u" "in_lang (Rep ?G) v"
        by (auto simp: TITLE_REGEX_def in_lang_Seq)
      have "in_lang ?G ([d] @ u)" using True uv(2) by (intro l_seq l_cls)
      then have "in_lang (Rep ?G) (([d] @ u) @ v)" using uv(3) by (rule l_rep)
      then have "in_lang (Seq (rep1 ?NW) (Rep ?G)) ([c] @ (([d] @ u) @ v))"
        using c by (intro l_seq rep1_single)
      then show ?thesis by (simp add: s Cons uv(1) TITLE_REGEX_def)
    qed
  qed
qed

lemma space_not_word: "is_space c \<Longrightarrow> \<not> is_word_char c"
  by (auto simp: is_space_def is_word_char_def is_letter_def is_digit_def)

lemma is_word_to_upper: "is_word_char (to_upper c) = is_word_char c"
  by (auto simp: to_upper_def is_word_char_def is_letter_def is_digit_def of_char_eq_iff
      dest!: arg_cong[where f="of_char :: char \<Rightarrow> nat"])

lemma to_upper_word: "to_upper c = to_upper d \<Longrightarrow> is_word_char d \<Longrightarrow> is_word_char c"
  by (metis is_word_to_upper)

lemma list_all_map_upper:
  assumes "map to_upper u = map to_upper v" "list_all is_word_char v"
  shows "list_all is_word_char u"
proof -
  from assms(1) have l: "length u = length v" by (rule map_eq_imp_length_eq)
  have "\<forall>k<length u. is_word_char (u ! k)"
  proof (intro allI impI)
    fix k assume k: "k < length u"
    from assms(1) k l have "to_upper (u ! k) = to_upper (v ! k)"
      by (metis nth_map)
    moreover from assms(2) k l have "is_word_char (v ! k)" by (simp add: list_all_length)
    ultimately show "is_word_char (u ! k)" by (rule to_upper_word)
  qed
  then show ?thesis by (simp add: list_all_length)
qed

lemma slice_all_nth:
  "i + n \<le> length s \<Longrightarrow> list_all P (slice s i n) \<Longrightarrow> k < n \<Longrightarrow> P (s ! (i + k))"
  by (simp add: slice_def list_all_length)

lemma slice_first:
  "1 \<le> n \<Longrightarrow> i + n \<le> length s \<Longrightarrow> list_all P (slice s i n) \<Longrightarrow> P (s ! i)"
  using slice_all_nth[of i n s P 0] by simp

lemma slice_last:
  "1 \<le> n \<Longrightarrow> i + n \<le> length s \<Longrightarrow> list_all P (slice s i n) \<Longrightarrow> P (s ! (i + n - 1))"
  using slice_all_nth[of i n s P "n - 1"] by simp

lemma dup_match_repeated:
  assumes "dup_match_at s i n m"
  shows "repeated_word_at s i n m"
proof -
  from assms have n: "1 \<le> n" and m: "1 \<le> m" and b1: "i + n \<le> length s"
    and b2: "i + n + m \<le> length s" and b3: "i + n + m + n \<le> length s"
    and wb1: "word_boundary s i" and wb2: "word_boundary s (i + n + m + n)"
    and w: "list_all is_word_char (slice s i n)"
    and sp: "list_all is_space (slice s (i + n) m)"
    and eq: "map to_upper (slice s (i + n + m) n) = map to_upper (slice s i n)"
    by (simp_all add: dup_match_at_def)
  from eq w have w2: "list_all is_word_char (slice s (i + n + m) n)"
    by (rule list_all_map_upper)
  have wi: "is_word_char (s ! i)" using n b1 w by (rule slice_first)
  have s0: "is_space (s ! (i + n))" using m b2 sp by (rule slice_first)
  have s1: "is_space (s ! (i + n + m - 1))" using m b2 sp by (rule slice_last)
  have wl: "is_word_char (s ! (i + n + m + n - 1))" using n b3 w2 by (rule slice_last)
  have left1: "i = 0 \<or> \<not> word_char_at s (i - 1)"
    using wb1 wi n b1 by (auto simp: word_boundary_def word_char_at_def split: if_splits)
  have right1: "\<not> word_char_at s (i + n)"
    using s0 by (simp add: word_char_at_def space_not_word)
  have left2: "\<not> word_char_at s (i + n + m - 1)"
    using s1 by (simp add: word_char_at_def space_not_word)
  have right2: "\<not> word_char_at s (i + n + m + n)"
    using wb2 wl n b3 by (auto simp: word_boundary_def word_char_at_def split: if_splits)
  show ?thesis
    unfolding repeated_word_at_def word_at_def
    using n m b1 b3 w sp eq w2 left1 right1 left2 right2 by simp
qed

lemma dup_test_repeated: "DUPLICATE_WORD_REGEX_test s \<Longrightarrow> has_repeated_word s"
proof -
  assume "DUPLICATE_WORD_REGEX_test s"
  then obtain i n m where r: "n \<in> set [1..<Suc (length s)]" "m \<in> set [1..<Suc (length s)]"
      "dup_match_at s i n m"
    unfolding DUPLICATE_WORD_REGEX_test_def list_ex_iff by blast
  then have "i \<in> set [0..<length s]" by (simp add: dup_match_at_def)
  with r(1,2) dup_match_repeated[OF r(3)] show ?thesis
    unfolding has_repeated_word_def list_ex_iff by blast
qed

lemma validateTitle_spec: "spec_title_ok s \<Longrightarrow> validateTitle (Some (JStr s)) = accept"
proof -
  assume a: "spec_title_ok s"
  then have ne: "s \<noteq> []" by (auto simp: spec_title_ok_def)
  from a ne have t: "trim s = s" by (intro trim_id) (simp_all add: spec_title_ok_def)
  from a ne have "in_lang TITLE_REGEX s"
    by (intro title_shape_in_lang) (simp_all add: spec_title_ok_def)
  then have m: "matches TITLE_REGEX s" by (simp add: matches_in_lang)
  from a have d: "\<not> DUPLICATE_WORD_REGEX_test s"
    using dup_test_repeated by (auto simp: spec_title_ok_def)
  from a ne t m d show ?thesis by (simp add: spec_title_ok_def)
qed

lemma go_go_now_duplicate: "DUPLICATE_WORD_REGEX_test ''go go now''"
proof -
  have "dup_match_at ''go go now'' 0 2 1" by code_simp
  moreover have "(0::nat) \<in> set [0..<Suc (length ''go go now'')]" by simp
  moreover have "(2::nat) \<in> set [1..<Suc (length ''go go now'')]" by simp
  moreover have "(1::nat) \<in> set [1..<Suc (length ''go go now'')]" by simp
  ultimately show ?thesis
    unfolding DUPLICATE_WORD_REGEX_test_def list_ex_iff by blast
qed

lemma go_go_now_rejected:
  "validateTitle (Some (JStr ''go go now'')) = reject ''Title contains duplicate words''"
proof -
  have t: "trim ''go go now'' = ''go go now''" by code_simp
  have m: "matches TITLE_REGEX ''go go now''" by code_simp
  show ?thesis using t m go_go_now_duplicate by simp
qed

text \<open>
  C3. Every string of 3 to 100 characters without leading or trailing white space, without
  two white-space characters in a row and without an immediately repeated word is accepted
  by \<open>validateTitle\<close>; the empty string, "ab", " abc", "abc  def" and "go go now" are
  rejected.
\<close>

theorem validateTitle_accepts_well_formed:
  "(spec_title_ok s \<longrightarrow> validateTitle (Some (JStr s)) = accept) \<and>
   \<not> valid (validateTitle (Some (JStr []))) \<and>
   \<not> valid (validateTitle (Some (JStr ''ab''))) \<and>
   \<not> valid (validateTitle (Some (JStr '' abc''))) \<and>
   \<not> valid (validateTitle (Some (JStr ''abc  def''))) \<and>
   \<not> valid (validateTitle (Some (JStr ''go go now'')))"
proof -
  have 1: "\<not> valid (validateTitle (Some (JStr [])))" by (simp add: reject_def)
  have 2: "\<not> valid (validateTitle (Some (JStr ''ab'')))" by code_simp
  have 3: "\<not> valid (validateTitle (Some (JStr '' abc'')))" by code_simp
  have 4: "\<not> valid (validateTitle (Some (JStr ''abc  def'')))" by code_simp
  have 5: "\<not> valid (validateTitle (Some (JStr ''go go now'')))"
    by (simp only: go_go_now_rejected) (simp add: reject_def)
  from 1 2 3 4 5 show ?thesis using validateTitle_spec by blast
qed

theorem validateTitle_accepts_well_formed_witness:
  "spec_title_ok ''Essay'' \<and> validateTitle (Some (JStr ''Essay'')) = accept"
proof -
  have h: "spec_title_ok ''Essay''" by code_simp
  with validateTitle_accepts_well_formed[of "''Essay''"] show ?thesis by simp
qed

section \<open>Import checks keys, not values (C10)\<close>

lemma missing_in_required:
  "missing_in t requiredFields = Inr None \<longleftrightarrow>
   (\<exists>fs. t = JObj fs \<and> set requiredFields \<subseteq> set (map fst fs))"
  by (cases t) (auto simp: requiredFields_def)

lemma first_missing_none:
  "first_missing ts = Inr None \<longleftrightarrow>
   (\<forall>t\<in>set ts. \<exists>fs. t = JObj fs \<and> set requiredFields \<subseteq> set (map fst fs))"
proof (induction ts)
  case Nil
  show ?case by simp
next
  case (Cons t ts)
  show ?case
  proof (cases "missing_in t requiredFields = Inr None")
    case True
    with Cons missing_in_required[of t] show ?thesis by simp
  next
    case False
    then have "first_missing (t # ts) \<noteq> Inr None"
      by (auto split: sum.splits option.splits)
    with False missing_in_required[of t] show ?thesis by simp
  qed
qed

lemma loadTasks_import_settings: "loadTasks (import_settings data st) = loadTasks st"
  by (auto simp: import_settings_def loadTasks_def split: sum.splits option.splits)

lemma importData_refused:
  assumes "map_of kvs ''tasks'' = Some (JArr ts)" "first_missing ts \<noteq> Inr None"
  shows "\<not> success (fst (importData (Some (JObj kvs)) st)) \<and>
         snd (importData (Some (JObj kvs)) st) = st"
  using assms
  by (auto simp: importData_def failure_def split: sum.splits option.splits)

lemma importData_saved:
  assumes "map_of kvs ''tasks'' = Some (JArr ts)" "first_missing ts = Inr None"
  shows "success (fst (importData (Some (JObj kvs)) st)) = quota_ok st \<and>
         (quota_ok st \<longrightarrow> loadTasks (snd (importData (Some (JObj kvs)) st)) = ts)"
  using assms
  by (simp add: importData_def failure_def loadTasks_import_settings loadTasks_saved)

text \<open>
  C10, as the code has it. Of a data object with a tasks array, \<open>importData\<close> asks two
  things and nothing else: that every element of the array is a record carrying the keys
  id, title, dueDate, duration and tag, and that the browser accepts the write. It
  reports success exactly when both hold, with no condition on any value; the stored
  collection is then the imported array as it came. When an element lacks a key, nothing
  is written. The witness imports a record whose title, duration, due date and tag the
  field validators all reject, and is refused the same record without its tag.
\<close>

theorem importData_checks_keys_only:
  assumes "map_of kvs ''tasks'' = Some (JArr ts)"
  shows "(success (fst (importData (Some (JObj kvs)) st)) \<longleftrightarrow>
            (\<forall>t\<in>set ts. \<exists>fs. t = JObj fs \<and> set requiredFields \<subseteq> set (map fst fs)) \<and>
            quota_ok st) \<and>
         (success (fst (importData (Some (JObj kvs)) st)) \<longrightarrow>
            loadTasks (snd (importData (Some (JObj kvs)) st)) = ts) \<and>
         (\<not> (\<forall>t\<in>set ts. \<exists>fs. t = JObj fs \<and> set requiredFields \<subseteq> set (map fst fs)) \<longrightarrow>
            snd (importData (Some (JObj kvs)) st) = st)"
proof (cases "first_missing ts = Inr None")
  case True
  from importData_saved[OF assms True, of st] True show ?thesis
    unfolding first_missing_none by blast
next
  case False
  from importData_refused[OF assms False, of st] False show ?thesis
    unfolding first_missing_none by blast
qed

theorem importData_checks_keys_only_witness:
  "success (fst (importData
     (Some (JObj [(''tasks'', JArr [JObj [(''id'', JStr ''x1''), (''title'', JStr []),
        (''dueDate'', JStr ''2024-02-30''), (''duration'', JNum 0), (''tag'', JStr ''AI'')]])]))
     empty_storage)) \<and>
   loadTasks (snd (importData
     (Some (JObj [(''tasks'', JArr [JObj [(''id'', JStr ''x1''), (''title'', JStr []),
        (''dueDate'', JStr ''2024-02-30''), (''duration'', JNum 0), (''tag'', JStr ''AI'')]])]))
     empty_storage)) =
     [JObj [(''id'', JStr ''x1''), (''title'', JStr []), (''dueDate'', JStr ''2024-02-30''),
            (''duration'', JNum 0), (''tag'', JStr ''AI'')]] \<and>
   \<not> valid (validateTitle (Some (JStr []))) \<and>
   validateDuration (Some (JNum 0)) =
     Inr (reject ''Duration must be a positive number (e.g., 120)'') \<and>
   \<not> valid (validateDueDate
        \<lparr>fullYear = 2024, monthIndex = 5, dayOfMonth = 15, msOfDay = 36000000\<rparr>
        \<lparr>fullYear = 2024, monthIndex = 5, dayOfMonth = 15, msOfDay = 36000000\<rparr>
        (Some (JStr ''2024-02-30''))) \<and>
   \<not> valid (validateTag (Some (JStr ''AI''))) \<and>
   \<not> success (fst (importData
     (Some (JObj [(''tasks'', JArr [JObj [(''id'', JStr ''x1''), (''title'', JStr []),
        (''dueDate'', JStr ''2024-02-30''), (''duration'', JNum 0)]])]))
     empty_storage)) \<and>
   snd (importData
     (Some (JObj [(''tasks'', JArr [JObj [(''id'', JStr ''x1''), (''title'', JStr []),
        (''dueDate'', JStr ''2024-02-30''), (''duration'', JNum 0)]])]))
     empty_storage) = empty_storage"
proof -
  let ?bad = "JObj [(''id'', JStr ''x1''), (''title'', JStr []),
        (''dueDate'', JStr ''2024-02-30''), (''duration'', JNum 0), (''tag'', JStr ''AI'')]"
  let ?short = "JObj [(''id'', JStr ''x1''), (''title'', JStr []),
        (''dueDate'', JStr ''2024-02-30''), (''duration'', JNum 0)]"
  have a: "map_of [(''tasks'', JArr [?bad])] ''tasks'' = Some (JArr [?bad])" by simp
  have b: "\<forall>t\<in>set [?bad]. \<exists>fs. t = JObj fs \<and> set requiredFields \<subseteq> set (map fst fs)"
    by (simp add: requiredFields_def)
  have c: "quota_ok empty_storage" by (simp add: empty_storage_def)
  have a': "map_of [(''tasks'', JArr [?short])] ''tasks'' = Some (JArr [?short])" by simp
  have b': "\<not> (\<forall>t\<in>set [?short]. \<exists>fs. t = JObj fs \<and> set requiredFields \<subseteq> set (map fst fs))"
    by (simp add: requiredFields_def)
  have v1: "\<not> valid (validateTitle (Some (JStr [])))" by (simp add: reject_def)
  have v2: "validateDuration (Some (JNum 0)) =
     Inr (reject ''Duration must be a positive number (e.g., 120)'')" by code_simp
  have v3: "\<not> valid (validateDueDate
        \<lparr>fullYear = 2024, monthIndex = 5, dayOfMonth = 15, msOfDay = 36000000\<rparr>
        \<lparr>fullYear = 2024, monthIndex = 5, dayOfMonth = 15, msOfDay = 36000000\<rparr>
        (Some (JStr ''2024-02-30'')))" by code_simp
  have v4: "\<not> valid (validateTag (Some (JStr ''AI'')))" by code_simp
  from importData_checks_keys_only[OF a, of empty_storage] b c
  have g: "success (fst (importData (Some (JObj [(''tasks'', JArr [?bad])])) empty_storage)) \<and>
    loadTasks (snd (importData (Some (JObj [(''tasks'', JArr [?bad])])) empty_storage)) = [?bad]"
    by blast
  from importData_checks_keys_only[OF a', of empty_storage] b'
  have r: "\<not> success (fst (importData (Some (JObj [(''tasks'', JArr [?short])])) empty_storage)) \<and>
    snd (importData (Some (JObj [(''tasks'', JArr [?short])])) empty_storage) = empty_storage"
    by blast
  from g r v1 v2 v3 v4 show ?thesis by blast
qed

text \<open>
  C10 as stated promises success for every array of records carrying the five keys. The
  import goes through \<open>saveTasks\<close>, and \<open>importData\<close> reports failure when that write is
  refused: the same record is not imported into a store whose quota is exhausted, and the
  store keeps no task.
\<close>

theorem importData_checks_keys_only_counterexample:
  "set requiredFields \<subseteq> set (map fst [(''id'', JStr ''x1''), (''title'', JStr ''Essay''),
        (''dueDate'', JStr ''2026-11-09''), (''duration'', JStr ''60''),
        (''tag'', JStr ''Academic'')]) \<and>
   fst (importData
     (Some (JObj [(''tasks'', JArr [JObj [(''id'', JStr ''x1''), (''title'', JStr ''Essay''),
        (''dueDate'', JStr ''2026-11-09''), (''duration'', JStr ''60''),
        (''tag'', JStr ''Academic'')]])]))
     (empty_storage\<lparr>quota_ok := False\<rparr>)) = failure ''Failed to save tasks'' \<and>
   \<not> success (fst (importData
     (Some (JObj [(''tasks'', JArr [JObj [(''id'', JStr ''x1''), (''title'', JStr ''Essay''),
        (''dueDate'', JStr ''2026-11-09''), (''duration'', JStr ''60''),
        (''tag'', JStr ''Academic'')]])]))
     (empty_storage\<lparr>quota_ok := False\<rparr>))) \<and>
   loadTasks (snd (importData
     (Some (JObj [(''tasks'', JArr [JObj [(''id'', JStr ''x1''), (''title'', JStr ''Essay''),
        (''dueDate'', JStr ''2026-11-09''), (''duration'', JStr ''60''),
        (''tag'', JStr ''Academic'')]])]))
     (empty_storage\<lparr>quota_ok := False\<rparr>))) = []"
  by code_simp

section \<open>Search (C2)\<close>

text \<open>
  C2 says that a task without a status is searched as if its status were "Todo", which is
  what \<open>addTask\<close> stores and what the task list displays for such a task. The filter
  searches the empty string instead: the pattern \<^verbatim>\<open>/Todo/\<close> does not select a task that
  has no status field, and selects the same task once the field is there.
\<close>

theorem filterTasksByRegex_status_default:
  "filterTasksByRegex (Some (literal_regexp False ''Todo''))
     (empty_storage\<lparr>tasks_item := Some (Json (JArr
        [JObj [(''id'', JStr ''t1''), (''title'', JStr ''Essay''),
               (''dueDate'', JStr ''2026-11-09''), (''duration'', JStr ''60''),
               (''tag'', JStr ''Academic'')]]))\<rparr>) = Inr [] \<and>
   filterTasksByRegex (Some (literal_regexp False ''Todo''))
     (empty_storage\<lparr>tasks_item := Some (Json (JArr
        [JObj [(''id'', JStr ''t1''), (''title'', JStr ''Essay''),
               (''dueDate'', JStr ''2026-11-09''), (''duration'', JStr ''60''),
               (''tag'', JStr ''Academic''), (''status'', JStr ''Todo'')]]))\<rparr>) =
     Inr [JObj [(''id'', JStr ''t1''), (''title'', JStr ''Essay''),
               (''dueDate'', JStr ''2026-11-09''), (''duration'', JStr ''60''),
               (''tag'', JStr ''Academic''), (''status'', JStr ''Todo'')]]"
  by code_simp

section \<open>Highlighting (C6)\<close>

text \<open>
  C6 says that no match lies inside what the escaping introduced. \<open>highlightMatches\<close>
  escapes first and searches the escaped text: in "R&D" the pattern \<^verbatim>\<open>/amp/i\<close> matches
  inside the entity written for the ampersand.
\<close>

theorem highlightMatches_matches_inside_escape:
  "highlightMatches (Some (JStr ''R&D'')) (Some (literal_regexp True ''amp'')) =
     Some (JStr ''R&<mark>amp</mark>;D'')"
  by code_simp

section \<open>Grouping by tag (C8)\<close>

text \<open>
  C8 says that grouping loses no task. "constructor" is a tag \<open>validateTag\<close> accepts, and
  a collection that holds a task with this tag is grouped into the empty object: every
  task is lost.
\<close>

theorem getTasksByTagGrouped_prototype_tag:
  "validateTag (Some (JStr ''constructor'')) = accept \<and>
   getTasksByTagGrouped (empty_storage\<lparr>tasks_item := Some (Json (JArr
     [JObj [(''id'', JStr ''t1''), (''tag'', JStr ''Academic'')],
      JObj [(''id'', JStr ''t2''), (''tag'', JStr ''constructor'')]]))\<rparr>) = []"
  by code_simp

section \<open>Tasks due within N days (C5)\<close>

text \<open>
  C5 says that a task due exactly N days from today is included. The due date is parsed
  as midnight UTC and compared with local midnights. Two hours east of UTC, on
  2 November 2026, the task due on 9 November is not among the tasks due in 7 days; five
  hours west of UTC the task due today is not. On UTC itself both are.
\<close>

theorem getTasksDueInDays_offset_from_UTC:
  "getTasksDueInDays 120 \<lparr>fullYear = 2026, monthIndex = 10, dayOfMonth = 2, msOfDay = 36000000\<rparr> 7
     (empty_storage\<lparr>tasks_item := Some (Json (JArr
        [JObj [(''id'', JStr ''t1''), (''dueDate'', JStr ''2026-11-09''),
               (''completed'', JBool False)]]))\<rparr>) = [] \<and>
   getTasksDueInDays (- 300) \<lparr>fullYear = 2026, monthIndex = 10, dayOfMonth = 2, msOfDay = 36000000\<rparr> 7
     (empty_storage\<lparr>tasks_item := Some (Json (JArr
        [JObj [(''id'', JStr ''t1''), (''dueDate'', JStr ''2026-11-02''),
               (''completed'', JBool False)]]))\<rparr>) = [] \<and>
   getTasksDueInDays 0 \<lparr>fullYear = 2026, monthIndex = 10, dayOfMonth = 2, msOfDay = 36000000\<rparr> 7
     (empty_storage\<lparr>tasks_item := Some (Json (JArr
        [JObj [(''id'', JStr ''t1''), (''dueDate'', JStr ''2026-11-09''),
               (''completed'', JBool False)],
         JObj [(''id'', JStr ''t2''), (''dueDate'', JStr ''2026-11-02''),
               (''completed'', JBool False)]]))\<rparr>) =
     [JObj [(''id'', JStr ''t1''), (''dueDate'', JStr ''2026-11-09''),
            (''completed'', JBool False)],
      JObj [(''id'', JStr ''t2''), (''dueDate'', JStr ''2026-11-02''),
            (''completed'', JBool False)]]"
  by code_simp

section \<open>The date pattern, character by character\<close>

lemma in_lang_Cls_Seq:
  "in_lang (Seq (Cls p) r) s = (\<exists>c w. s = c # w \<and> p c \<and> in_lang r w)"
proof
  assume "in_lang (Seq (Cls p) r) s"
  then obtain u v where "s = u @ v" "in_lang (Cls p) u" "in_lang r v"
    by (auto simp: in_lang_Seq)
  then show "\<exists>c w. s = c # w \<and> p c \<and> in_lang r w" by (auto simp: in_lang_Cls)
next
  assume "\<exists>c w. s = c # w \<and> p c \<and> in_lang r w"
  then obtain c w where "s = [c] @ w" "in_lang (Cls p) [c]" "in_lang r w"
    by (auto intro: l_cls)
  then show "in_lang (Seq (Cls p) r) s" using l_seq[of "Cls p" "[c]" r w] by simp
qed

lemma in_lang_two: "in_lang (Seq (Cls p) (Cls q)) s = (\<exists>a b. s = [a, b] \<and> p a \<and> q b)"
  by (auto simp: in_lang_Cls_Seq in_lang_Cls)

lemma lit_one_of: "in_lang (Seq (lit a0) (one_of cs)) s = (\<exists>b. s = [a0, b] \<and> b \<in> set cs)"
  by (auto simp: lit_def one_of_def in_lang_two)

lemma one_of_cls:
  "in_lang (Seq (one_of cs) (Cls p)) s = (\<exists>a b. s = [a, b] \<and> a \<in> set cs \<and> p b)"
  by (auto simp: one_of_def in_lang_two)

lemma in_lang_month: "in_lang month_group s = (\<exists>a b. s = [a, b] \<and> month_chars a b)"
  unfolding month_group_def month_chars_def in_lang_Alt lit_one_of by blast

lemma in_lang_day: "in_lang day_group s = (\<exists>a b. s = [a, b] \<and> day_chars a b)"
  unfolding day_group_def day_chars_def in_lang_Alt lit_one_of one_of_cls by blast

lemma in_lang_month_Seq:
  "in_lang (Seq month_group r) s = (\<exists>a b w. s = a # b # w \<and> month_chars a b \<and> in_lang r w)"
proof
  assume "in_lang (Seq month_group r) s"
  then obtain u v where "s = u @ v" "in_lang month_group u" "in_lang r v"
    by (auto simp: in_lang_Seq)
  then show "\<exists>a b w. s = a # b # w \<and> month_chars a b \<and> in_lang r w"
    by (auto simp: in_lang_month)
next
  assume "\<exists>a b w. s = a # b # w \<and> month_chars a b \<and> in_lang r w"
  then obtain a b w where "s = [a, b] @ w" "in_lang month_group [a, b]" "in_lang r w"
    by (auto simp: in_lang_month)
  then show "in_lang (Seq month_group r) s" using l_seq[of month_group "[a, b]" r w] by simp
qed

lemma cls_seqI: "p c \<Longrightarrow> in_lang r w \<Longrightarrow> in_lang (Seq (Cls p) r) (c # w)"
  by (auto simp: in_lang_Cls_Seq)

lemma month_seqI: "month_chars a b \<Longrightarrow> in_lang r w \<Longrightarrow> in_lang (Seq month_group r) (a # b # w)"
  by (auto simp: in_lang_month_Seq)

lemma date_regex_chars:
  "in_lang DATE_REGEX t =
     (\<exists>y1 y2 y3 y4 m1 m2 d1 d2.
        t = [y1, y2, y3, y4, CHR ''-'', m1, m2, CHR ''-'', d1, d2] \<and>
        is_digit y1 \<and> is_digit y2 \<and> is_digit y3 \<and> is_digit y4 \<and>
        month_chars m1 m2 \<and> day_chars d1 d2)"
proof
  let ?dash = "Cls (\<lambda>d. d = CHR ''-'')"
  let ?r6 = "Seq ?dash day_group"
  let ?r5 = "Seq month_group ?r6"
  let ?r4 = "Seq ?dash ?r5"
  let ?r3 = "Seq (Cls is_digit) ?r4"
  let ?r2 = "Seq (Cls is_digit) ?r3"
  let ?r1 = "Seq (Cls is_digit) ?r2"
  assume "in_lang DATE_REGEX t"
  then have "in_lang (Seq (Cls is_digit) ?r1) t" by (simp add: DATE_REGEX_def lit_def)
  then obtain y1 w1 where 1: "t = y1 # w1" "is_digit y1" "in_lang ?r1 w1"
    unfolding in_lang_Cls_Seq[of is_digit ?r1] by blast
  from 1(3) obtain y2 w2 where 2: "w1 = y2 # w2" "is_digit y2" "in_lang ?r2 w2"
    unfolding in_lang_Cls_Seq[of is_digit ?r2] by blast
  from 2(3) obtain y3 w3 where 3: "w2 = y3 # w3" "is_digit y3" "in_lang ?r3 w3"
    unfolding in_lang_Cls_Seq[of is_digit ?r3] by blast
  from 3(3) obtain y4 w4 where 4: "w3 = y4 # w4" "is_digit y4" "in_lang ?r4 w4"
    unfolding in_lang_Cls_Seq[of is_digit ?r4] by blast
  from 4(3) obtain h1 w5 where 5: "w4 = h1 # w5" "h1 = CHR ''-''" "in_lang ?r5 w5"
    unfolding in_lang_Cls_Seq[of _ ?r5] by blast
  from 5(3) obtain m1 m2 w6 where 6: "w5 = m1 # m2 # w6" "month_chars m1 m2" "in_lang ?r6 w6"
    unfolding in_lang_month_Seq by blast
  from 6(3) obtain h2 w7 where 7: "w6 = h2 # w7" "h2 = CHR ''-''" "in_lang day_group w7"
    unfolding in_lang_Cls_Seq[of _ day_group] by blast
  from 7(3) obtain d1 d2 where 8: "w7 = [d1, d2]" "day_chars d1 d2"
    unfolding in_lang_day by blast
  have "t = [y1, y2, y3, y4, CHR ''-'', m1, m2, CHR ''-'', d1, d2]"
    by (simp add: 1(1) 2(1) 3(1) 4(1) 5(1,2) 6(1) 7(1,2) 8(1))
  with 1(2) 2(2) 3(2) 4(2) 6(2) 8(2)
  show "\<exists>y1 y2 y3 y4 m1 m2 d1 d2.
        t = [y1, y2, y3, y4, CHR ''-'', m1, m2, CHR ''-'', d1, d2] \<and>
        is_digit y1 \<and> is_digit y2 \<and> is_digit y3 \<and> is_digit y4 \<and>
        month_chars m1 m2 \<and> day_chars d1 d2" by blast
next
  assume "\<exists>y1 y2 y3 y4 m1 m2 d1 d2.
        t = [y1, y2, y3, y4, CHR ''-'', m1, m2, CHR ''-'', d1, d2] \<and>
        is_digit y1 \<and> is_digit y2 \<and> is_digit y3 \<and> is_digit y4 \<and>
        month_chars m1 m2 \<and> day_chars d1 d2"
  then obtain y1 y2 y3 y4 m1 m2 d1 d2 where
    t: "t = [y1, y2, y3, y4, CHR ''-'', m1, m2, CHR ''-'', d1, d2]" and
    d: "is_digit y1" "is_digit y2" "is_digit y3" "is_digit y4" and
    m: "month_chars m1 m2" and dd: "day_chars d1 d2" by blast
  have "in_lang day_group [d1, d2]" using dd by (auto simp: in_lang_day)
  then show "in_lang DATE_REGEX t"
    unfolding DATE_REGEX_def seqs.simps lit_def t
    using d m by (intro cls_seqI month_seqI) simp_all
qed


lemma code_char: "(of_char c :: nat) = of_char d \<Longrightarrow> c = d"
  by (simp add: of_char_eq_iff)
lemma codes_1_to_9: "b \<in> set ''123456789'' = (49 \<le> (of_char b :: nat) \<and> (of_char b :: nat) \<le> 57)"
proof
  assume "b \<in> set ''123456789''"
  then show "49 \<le> (of_char b :: nat) \<and> (of_char b :: nat) \<le> 57" by auto
next
  let ?n = "of_char b :: nat"
  assume "49 \<le> ?n \<and> ?n \<le> 57"
  then consider "?n = 49" | "?n = 50" | "?n = 51" | "?n = 52" | "?n = 53" | "?n = 54"
    | "?n = 55" | "?n = 56" | "?n = 57" by arith
  then show "b \<in> set ''123456789''"
  proof cases
    case 1 then have "b = CHR ''1''" by (intro code_char) simp then show ?thesis by simp
  next
    case 2 then have "b = CHR ''2''" by (intro code_char) simp then show ?thesis by simp
  next
    case 3 then have "b = CHR ''3''" by (intro code_char) simp then show ?thesis by simp
  next
    case 4 then have "b = CHR ''4''" by (intro code_char) simp then show ?thesis by simp
  next
    case 5 then have "b = CHR ''5''" by (intro code_char) simp then show ?thesis by simp
  next
    case 6 then have "b = CHR ''6''" by (intro code_char) simp then show ?thesis by simp
  next
    case 7 then have "b = CHR ''7''" by (intro code_char) simp then show ?thesis by simp
  next
    case 8 then have "b = CHR ''8''" by (intro code_char) simp then show ?thesis by simp
  next
    case 9 then have "b = CHR ''9''" by (intro code_char) simp then show ?thesis by simp
  qed
qed

lemma codes_0_to_2: "b \<in> set ''012'' = (48 \<le> (of_char b :: nat) \<and> (of_char b :: nat) \<le> 50)"
proof
  assume "b \<in> set ''012''"
  then show "48 \<le> (of_char b :: nat) \<and> (of_char b :: nat) \<le> 50" by auto
next
  let ?n = "of_char b :: nat"
  assume "48 \<le> ?n \<and> ?n \<le> 50"
  then consider "?n = 48" | "?n = 49" | "?n = 50" by arith
  then show "b \<in> set ''012''"
  proof cases
    case 1 then have "b = CHR ''0''" by (intro code_char) simp then show ?thesis by simp
  next
    case 2 then have "b = CHR ''1''" by (intro code_char) simp then show ?thesis by simp
  next
    case 3 then have "b = CHR ''2''" by (intro code_char) simp then show ?thesis by simp
  qed
qed

lemma codes_1_to_2: "b \<in> set ''12'' = (49 \<le> (of_char b :: nat) \<and> (of_char b :: nat) \<le> 50)"
proof
  assume "b \<in> set ''12''"
  then show "49 \<le> (of_char b :: nat) \<and> (of_char b :: nat) \<le> 50" by auto
next
  let ?n = "of_char b :: nat"
  assume "49 \<le> ?n \<and> ?n \<le> 50"
  then consider "?n = 49" | "?n = 50" by arith
  then show "b \<in> set ''12''"
  proof cases
    case 1 then have "b = CHR ''1''" by (intro code_char) simp then show ?thesis by simp
  next
    case 2 then have "b = CHR ''2''" by (intro code_char) simp then show ?thesis by simp
  qed
qed

lemma codes_0_to_1: "b \<in> set ''01'' = (48 \<le> (of_char b :: nat) \<and> (of_char b :: nat) \<le> 49)"
proof
  assume "b \<in> set ''01''"
  then show "48 \<le> (of_char b :: nat) \<and> (of_char b :: nat) \<le> 49" by auto
next
  let ?n = "of_char b :: nat"
  assume "48 \<le> ?n \<and> ?n \<le> 49"
  then consider "?n = 48" | "?n = 49" by arith
  then show "b \<in> set ''01''"
  proof cases
    case 1 then have "b = CHR ''0''" by (intro code_char) simp then show ?thesis by simp
  next
    case 2 then have "b = CHR ''1''" by (intro code_char) simp then show ?thesis by simp
  qed
qed

lemma is_char_code: "(c = d) = ((of_char c :: nat) = of_char d)"
  by (simp add: of_char_eq_iff)

lemma month_chars_val:
  "month_chars a b =
     (is_digit a \<and> is_digit b \<and> 1 \<le> 10 * digit_val a + digit_val b \<and>
      10 * digit_val a + digit_val b \<le> 12)"
  unfolding month_chars_def codes_1_to_9 codes_0_to_2 is_digit_def digit_val_def
    is_char_code[of a "CHR ''0''"] is_char_code[of a "CHR ''1''"]
  by simp arith

lemma day_chars_val:
  "day_chars a b =
     (is_digit a \<and> is_digit b \<and> 1 \<le> 10 * digit_val a + digit_val b \<and>
      10 * digit_val a + digit_val b \<le> 31)"
  unfolding day_chars_def codes_1_to_9 codes_1_to_2 codes_0_to_1 is_digit_def digit_val_def
    is_char_code[of a "CHR ''0''"] is_char_code[of a "CHR ''3''"]
  by simp arith


section \<open>validateDueDate (C4)\<close>

lemma digits_val2: "digits_val [a, b] = 10 * digit_val a + digit_val b"
  by (simp add: digits_val_def)

lemma digits_val4:
  "digits_val [a, b, c, d] = 1000 * digit_val a + 100 * digit_val b + 10 * digit_val c + digit_val d"
  by (simp add: digits_val_def)

lemma digit_val_range: "is_digit c \<Longrightarrow> 0 \<le> digit_val c \<and> digit_val c \<le> 9"
  by (auto simp: is_digit_def digit_val_def)

lemma digit_not_dash: "is_digit c \<Longrightarrow> c \<noteq> CHR ''-''"
  by (auto simp: is_digit_def)

lemma len10E:
  assumes "length t = 10"
  obtains c0 c1 c2 c3 c4 c5 c6 c7 c8 c9 where "t = [c0, c1, c2, c3, c4, c5, c6, c7, c8, c9]"
  using assms by (auto simp: length_Suc_conv eval_nat_numeral)

lemma make_date_fields:
  "fullYear (make_date y m d ms) = fst (carry_days (y + m div 12) (m mod 12) d)"
  "monthIndex (make_date y m d ms) = fst (snd (carry_days (y + m div 12) (m mod 12) d))"
  "dayOfMonth (make_date y m d ms) = snd (snd (carry_days (y + m div 12) (m mod 12) d))"
  "msOfDay (make_date y m d ms) = ms"
  by (simp_all add: make_date_def split: prod.splits)

lemma date_regex_shape:
  "in_lang DATE_REGEX t =
     (iso_shape t \<and> 1 \<le> month_of t \<and> month_of t \<le> 12 \<and> 1 \<le> day_of t \<and> day_of t \<le> 31)"
proof
  assume "in_lang DATE_REGEX t"
  then obtain y1 y2 y3 y4 m1 m2 d1 d2 where
    t: "t = [y1, y2, y3, y4, CHR ''-'', m1, m2, CHR ''-'', d1, d2]" and
    d: "is_digit y1" "is_digit y2" "is_digit y3" "is_digit y4" and
    m: "month_chars m1 m2" and dd: "day_chars d1 d2"
    unfolding date_regex_chars by blast
  from m dd d show "iso_shape t \<and> 1 \<le> month_of t \<and> month_of t \<le> 12 \<and> 1 \<le> day_of t \<and> day_of t \<le> 31"
    unfolding month_chars_val day_chars_val
    by (simp add: t iso_shape_def month_of_def day_of_def slice_def digits_val2)
next
  assume a: "iso_shape t \<and> 1 \<le> month_of t \<and> month_of t \<le> 12 \<and> 1 \<le> day_of t \<and> day_of t \<le> 31"
  then have "length t = 10" by (simp add: iso_shape_def)
  then obtain c0 c1 c2 c3 c4 c5 c6 c7 c8 c9 where
    t: "t = [c0, c1, c2, c3, c4, c5, c6, c7, c8, c9]" by (rule len10E)
  from a have d: "is_digit c0" "is_digit c1" "is_digit c2" "is_digit c3" "c4 = CHR ''-''"
     "c7 = CHR ''-''" "is_digit c5" "is_digit c6" "is_digit c8" "is_digit c9"
    by (simp_all add: t iso_shape_def slice_def)
  from a d have "month_chars c5 c6" "day_chars c8 c9"
    unfolding month_chars_val day_chars_val
    by (simp_all add: t month_of_def day_of_def slice_def digits_val2)
  with d show "in_lang DATE_REGEX t" unfolding date_regex_chars t by blast
qed

lemma split_iso:
  assumes "iso_shape t"
  shows "map digits_val (split_on CHR ''-'' t) = [year_of t, month_of t, day_of t]"
proof -
  from assms have "length t = 10" by (simp add: iso_shape_def)
  then obtain c0 c1 c2 c3 c4 c5 c6 c7 c8 c9 where
    t: "t = [c0, c1, c2, c3, c4, c5, c6, c7, c8, c9]" by (rule len10E)
  from assms have d: "is_digit c0" "is_digit c1" "is_digit c2" "is_digit c3" "c4 = CHR ''-''"
     "c7 = CHR ''-''" "is_digit c5" "is_digit c6" "is_digit c8" "is_digit c9"
    by (simp_all add: t iso_shape_def slice_def)
  then have n: "c0 \<noteq> CHR ''-''" "c1 \<noteq> CHR ''-''" "c2 \<noteq> CHR ''-''" "c3 \<noteq> CHR ''-''"
    "c5 \<noteq> CHR ''-''" "c6 \<noteq> CHR ''-''" "c8 \<noteq> CHR ''-''" "c9 \<noteq> CHR ''-''"
    by (simp_all add: digit_not_dash)
  show ?thesis using d(5,6) n
    by (simp add: t year_of_def month_of_def day_of_def slice_def)
qed

lemma year_of_nonneg: "iso_shape t \<Longrightarrow> 0 \<le> year_of t"
proof -
  assume a: "iso_shape t"
  then have "length t = 10" by (simp add: iso_shape_def)
  then obtain c0 c1 c2 c3 c4 c5 c6 c7 c8 c9 where
    t: "t = [c0, c1, c2, c3, c4, c5, c6, c7, c8, c9]" by (rule len10E)
  from a have "is_digit c0" "is_digit c1" "is_digit c2" "is_digit c3"
    by (simp_all add: t iso_shape_def slice_def)
  then have "0 \<le> digit_val c0" "0 \<le> digit_val c1" "0 \<le> digit_val c2" "0 \<le> digit_val c3"
    by (simp_all add: digit_val_range)
  then show ?thesis by (simp add: t year_of_def slice_def digits_val4)
qed

lemma days_in_month_range: "28 \<le> days_in_month y m \<and> days_in_month y m \<le> 31"
  by (simp add: days_in_month_def)

lemma carry_days_within: "d \<le> days_in_month y m \<Longrightarrow> carry_days y m d = (y, m, d)"
  by (simp add: carry_days.simps)

lemma carry_days_over:
  assumes "0 \<le> m" "m \<le> 11" "days_in_month y m < d" "d \<le> 31"
  shows "fst (snd (carry_days y m d)) \<noteq> m"
proof -
  from assms have m10: "m \<le> 10" by (auto simp: days_in_month_def split: if_splits)
  have r: "d - days_in_month y m \<le> days_in_month y (m + 1)"
    using assms(4) days_in_month_range[of y m] days_in_month_range[of y "m + 1"] by arith
  have "carry_days y m d = carry_days y (m + 1) (d - days_in_month y m)"
    using assms(3) m10 by (subst carry_days.simps) simp
  also have "\<dots> = (y, m + 1, d - days_in_month y m)" using r by (rule carry_days_within)
  finally show ?thesis by simp
qed

lemma new_Date_roundtrip:
  assumes "1 \<le> m" "m \<le> 12" "1 \<le> d" "d \<le> 31" "0 \<le> y"
  shows "(fullYear (new_Date_ymd y (m - 1) d) = y \<and> monthIndex (new_Date_ymd y (m - 1) d) = m - 1 \<and>
          dayOfMonth (new_Date_ymd y (m - 1) d) = d) =
         (100 \<le> y \<and> d \<le> days_in_month y (m - 1))"
proof -
  let ?y = "if 0 \<le> y \<and> y \<le> 99 then 1900 + y else y"
  from assms have mm: "(m - 1) div 12 = 0" "(m - 1) mod 12 = m - 1" by simp_all
  show ?thesis
  proof (cases "d \<le> days_in_month ?y (m - 1)")
    case True
    then show ?thesis using assms
      by (auto simp: new_Date_ymd_def make_date_def mm carry_days_within)
  next
    case False
    then have "fst (snd (carry_days ?y (m - 1) d)) \<noteq> m - 1"
      using assms by (intro carry_days_over) auto
    then have "monthIndex (new_Date_ymd y (m - 1) d) \<noteq> m - 1"
      by (simp add: new_Date_ymd_def make_date_fields mm)
    then show ?thesis using False assms by (auto split: if_splits)
  qed
qed

lemma new_Date_exact:
  assumes "1 \<le> m" "m \<le> 12" "100 \<le> y" "d \<le> days_in_month y (m - 1)"
  shows "new_Date_ymd y (m - 1) d = \<lparr>fullYear = y, monthIndex = m - 1, dayOfMonth = d, msOfDay = 0\<rparr>"
proof -
  from assms have mm: "(m - 1) div 12 = 0" "(m - 1) mod 12 = m - 1" by simp_all
  show ?thesis using assms by (simp add: new_Date_ymd_def make_date_def mm carry_days_within)
qed

lemma date_lt_lower:
  "date_lt \<lparr>fullYear = y, monthIndex = m, dayOfMonth = d, msOfDay = 0\<rparr> (setHours0 x) =
   day_lt (y, m, d) (civil_day x)"
  by (auto simp: date_lt_def setHours0_def civil_day_def)

lemma date_lt_upper:
  "0 \<le> msOfDay x \<Longrightarrow>
   date_lt x \<lparr>fullYear = y, monthIndex = m, dayOfMonth = d, msOfDay = 0\<rparr> =
   day_lt (civil_day x) (y, m, d)"
  by (auto simp: date_lt_def civil_day_def)

lemma carry_days_year: "y \<le> fst (carry_days y m d)"
proof (induction y m d rule: carry_days.induct)
  case (1 y m d)
  show ?case
  proof (cases "days_in_month y m < d")
    case True
    then show ?thesis using 1 by (subst carry_days.simps) (auto split: if_splits)
  next
    case False
    then show ?thesis by (subst carry_days.simps) simp
  qed
qed

lemma setFullYear_year: "0 \<le> monthIndex now \<Longrightarrow> k \<le> fullYear (setFullYear k now)"
proof -
  assume "0 \<le> monthIndex now"
  then have "0 \<le> monthIndex now div 12" by simp
  then have "k \<le> k + monthIndex now div 12" by simp
  also have "\<dots> \<le> fst (carry_days (k + monthIndex now div 12) (monthIndex now mod 12) (dayOfMonth now))"
    by (rule carry_days_year)
  finally show ?thesis by (simp add: setFullYear_def make_date_fields)
qed


lemma validateDueDate_valid_iff:
  "valid (validateDueDate n1 n2 (Some (JStr s))) =
     (s \<noteq> [] \<and> matches DATE_REGEX (trim s) \<and>
      (case map digits_val (split_on CHR ''-'' (trim s)) of
         year # month # day # rest \<Rightarrow>
           fullYear (new_Date_ymd year (month - 1) day) = year \<and>
           monthIndex (new_Date_ymd year (month - 1) day) = month - 1 \<and>
           dayOfMonth (new_Date_ymd year (month - 1) day) = day \<and>
           \<not> date_lt (new_Date_ymd year (month - 1) day)
                (setHours0 (setFullYear (fullYear n1 - 1) n1)) \<and>
           \<not> date_lt (setFullYear (fullYear n2 + 2) n2) (new_Date_ymd year (month - 1) day)
       | _ \<Rightarrow> False))"
  by (auto simp: Let_def reject_def accept_def split: list.splits)

lemma validateDueDate_shape:
  assumes "iso_shape (trim s)" "1 \<le> month_of (trim s)" "month_of (trim s) \<le> 12"
    "1 \<le> day_of (trim s)" "day_of (trim s) \<le> 31" "0 \<le> msOfDay n2"
  shows "valid (validateDueDate n1 n2 (Some (JStr s))) =
     (100 \<le> year_of (trim s) \<and>
      day_of (trim s) \<le> days_in_month (year_of (trim s)) (month_of (trim s) - 1) \<and>
      \<not> day_lt (year_of (trim s), month_of (trim s) - 1, day_of (trim s))
           (civil_day (setFullYear (fullYear n1 - 1) n1)) \<and>
      \<not> day_lt (civil_day (setFullYear (fullYear n2 + 2) n2))
           (year_of (trim s), month_of (trim s) - 1, day_of (trim s)))"
proof -
  let ?t = "trim s"
  let ?y = "year_of ?t" and ?m = "month_of ?t" and ?d = "day_of ?t"
  from assms(1) have ne: "s \<noteq> []" by (auto simp: iso_shape_def trim_def)
  have m: "matches DATE_REGEX ?t" using assms(1-5) by (simp add: matches_in_lang date_regex_shape)
  have sp: "map digits_val (split_on CHR ''-'' ?t) = [?y, ?m, ?d]" using assms(1) by (rule split_iso)
  have y0: "0 \<le> ?y" using assms(1) by (rule year_of_nonneg)
  have rt: "(fullYear (new_Date_ymd ?y (?m - 1) ?d) = ?y \<and>
             monthIndex (new_Date_ymd ?y (?m - 1) ?d) = ?m - 1 \<and>
             dayOfMonth (new_Date_ymd ?y (?m - 1) ?d) = ?d) =
            (100 \<le> ?y \<and> ?d \<le> days_in_month ?y (?m - 1))"
    using assms(2-5) y0 by (rule new_Date_roundtrip)
  show ?thesis
  proof (cases "100 \<le> ?y \<and> ?d \<le> days_in_month ?y (?m - 1)")
    case True
    then have ex: "new_Date_ymd ?y (?m - 1) ?d =
        \<lparr>fullYear = ?y, monthIndex = ?m - 1, dayOfMonth = ?d, msOfDay = 0\<rparr>"
      using assms(2,3) by (intro new_Date_exact) simp_all
    have u: "0 \<le> msOfDay (setFullYear (fullYear n2 + 2) n2)"
      using assms(6) by (simp add: setFullYear_def make_date_fields)
    show ?thesis
      unfolding validateDueDate_valid_iff sp
      using True ne m by (simp add: ex date_lt_lower date_lt_upper[OF u])
  next
    case False
    then show ?thesis
      unfolding validateDueDate_valid_iff sp using rt by auto
  qed
qed

lemma validateDueDate_no_shape:
  assumes "\<not> in_lang DATE_REGEX (trim s)"
  shows "\<not> valid (validateDueDate n1 n2 (Some (JStr s)))"
  using assms unfolding validateDueDate_valid_iff by (simp add: matches_in_lang)

lemma validateDueDate_spec:
  assumes "valid_clock now" "101 \<le> fullYear now"
  shows "valid (validateDueDate now now (Some (JStr s))) = spec_due_date_ok now (trim s)"
proof (cases "in_lang DATE_REGEX (trim s)")
  case True
  let ?t = "trim s"
  from True have sh: "iso_shape ?t" "1 \<le> month_of ?t" "month_of ?t \<le> 12"
    "1 \<le> day_of ?t" "day_of ?t \<le> 31" by (simp_all add: date_regex_shape)
  from assms(1) have ms: "0 \<le> msOfDay now" and mi: "0 \<le> monthIndex now"
    by (simp_all add: valid_clock_def)
  have low: "fullYear now - 1 \<le> fullYear (setFullYear (fullYear now - 1) now)"
    using mi by (rule setFullYear_year)
  have small: "year_of ?t < 100 \<longrightarrow>
      day_lt (year_of ?t, month_of ?t - 1, day_of ?t) (civil_day (setFullYear (fullYear now - 1) now))"
    using low assms(2) by (simp add: civil_day_def)
  show ?thesis
    unfolding validateDueDate_shape[OF sh ms] spec_due_date_ok_def spec_in_window_def
      real_calendar_date_def
    using sh small by (auto simp: not_less)
next
  case False
  then have "\<not> valid (validateDueDate now now (Some (JStr s)))" by (rule validateDueDate_no_shape)
  moreover have "\<not> spec_due_date_ok now (trim s)"
  proof
    assume a: "spec_due_date_ok now (trim s)"
    then have "day_of (trim s) \<le> 31"
      using days_in_month_range[of "year_of (trim s)" "month_of (trim s) - 1"]
      by (simp add: spec_due_date_ok_def real_calendar_date_def)
    with a have "in_lang DATE_REGEX (trim s)"
      by (simp add: date_regex_shape spec_due_date_ok_def real_calendar_date_def)
    with False show False by simp
  qed
  ultimately show ?thesis by simp
qed

lemma feb30: "\<not> valid (validateDueDate n1 n2 (Some (JStr ''2024-02-30'')))"
proof -
  have t: "trim ''2024-02-30'' = ''2024-02-30''" by code_simp
  have m: "map digits_val (split_on CHR ''-'' ''2024-02-30'') = [2024, 2, 30]" by code_simp
  have d: "monthIndex (new_Date_ymd 2024 (2 - 1) 30) = 2" by code_simp
  show ?thesis unfolding validateDueDate_valid_iff t m using d by simp
qed

text \<open>
  C4, as the code has it. With one clock reading \<open>now\<close> for both bounds,
  \<open>validateDueDate\<close> accepts a string exactly when the string, once trimmed, has the shape
  \<^verbatim>\<open>YYYY-MM-DD\<close>, names a real calendar date and lies, as a calendar day, between the day
  one year before today and the day two years after today, both included. "2024-02-30" is
  rejected under every clock; "2024-02-29" is accepted on 15 June 2024; a date outside the
  window is rejected.
\<close>

theorem validateDueDate_accepts_exactly:
  "(valid_clock now \<and> 101 \<le> fullYear now \<longrightarrow>
      valid (validateDueDate now now (Some (JStr s))) = spec_due_date_ok now (trim s)) \<and>
   (valid_clock now \<and> 101 \<le> fullYear now \<and>
    \<not> spec_in_window now (year_of (trim s), month_of (trim s) - 1, day_of (trim s)) \<longrightarrow>
      \<not> valid (validateDueDate now now (Some (JStr s)))) \<and>
   \<not> valid (validateDueDate n1 n2 (Some (JStr ''2024-02-30''))) \<and>
   valid (validateDueDate
     \<lparr>fullYear = 2024, monthIndex = 5, dayOfMonth = 15, msOfDay = 36000000\<rparr>
     \<lparr>fullYear = 2024, monthIndex = 5, dayOfMonth = 15, msOfDay = 36000000\<rparr>
     (Some (JStr ''2024-02-29'')))"
proof -
  have 1: "valid_clock now \<and> 101 \<le> fullYear now \<longrightarrow>
      valid (validateDueDate now now (Some (JStr s))) = spec_due_date_ok now (trim s)"
    using validateDueDate_spec[of now s] by blast
  then have 2: "valid_clock now \<and> 101 \<le> fullYear now \<and>
    \<not> spec_in_window now (year_of (trim s), month_of (trim s) - 1, day_of (trim s)) \<longrightarrow>
      \<not> valid (validateDueDate now now (Some (JStr s)))"
    by (simp add: spec_due_date_ok_def)
  have 3: "\<not> valid (validateDueDate n1 n2 (Some (JStr ''2024-02-30'')))" by (rule feb30)
  have 4: "valid (validateDueDate
     \<lparr>fullYear = 2024, monthIndex = 5, dayOfMonth = 15, msOfDay = 36000000\<rparr>
     \<lparr>fullYear = 2024, monthIndex = 5, dayOfMonth = 15, msOfDay = 36000000\<rparr>
     (Some (JStr ''2024-02-29'')))" by code_simp
  from 1 2 3 4 show ?thesis by blast
qed

theorem validateDueDate_accepts_exactly_witness:
  "valid_clock \<lparr>fullYear = 2024, monthIndex = 5, dayOfMonth = 15, msOfDay = 36000000\<rparr> \<and>
   spec_due_date_ok \<lparr>fullYear = 2024, monthIndex = 5, dayOfMonth = 15, msOfDay = 36000000\<rparr>
     (trim ''2025-01-31'') \<and>
   valid (validateDueDate
     \<lparr>fullYear = 2024, monthIndex = 5, dayOfMonth = 15, msOfDay = 36000000\<rparr>
     \<lparr>fullYear = 2024, monthIndex = 5, dayOfMonth = 15, msOfDay = 36000000\<rparr>
     (Some (JStr ''2025-01-31''))) \<and>
   \<not> spec_in_window \<lparr>fullYear = 2024, monthIndex = 5, dayOfMonth = 15, msOfDay = 36000000\<rparr>
     (year_of (trim ''2026-06-16''), month_of (trim ''2026-06-16'') - 1,
      day_of (trim ''2026-06-16'')) \<and>
   \<not> valid (validateDueDate
     \<lparr>fullYear = 2024, monthIndex = 5, dayOfMonth = 15, msOfDay = 36000000\<rparr>
     \<lparr>fullYear = 2024, monthIndex = 5, dayOfMonth = 15, msOfDay = 36000000\<rparr>
     (Some (JStr ''2026-06-16'')))"
proof -
  let ?now = "\<lparr>fullYear = 2024, monthIndex = 5, dayOfMonth = 15, msOfDay = 36000000\<rparr>"
  have c: "valid_clock ?now" by code_simp
  have y: "101 \<le> fullYear ?now" by simp
  have a: "spec_due_date_ok ?now (trim ''2025-01-31'')" by code_simp
  have b: "\<not> spec_in_window ?now (year_of (trim ''2026-06-16''),
      month_of (trim ''2026-06-16'') - 1, day_of (trim ''2026-06-16''))" by code_simp
  from validateDueDate_accepts_exactly[of ?now "''2025-01-31''"] c y a
  have v: "valid (validateDueDate ?now ?now (Some (JStr ''2025-01-31'')))" by blast
  from validateDueDate_accepts_exactly[of ?now "''2026-06-16''"] c y b
  have w: "\<not> valid (validateDueDate ?now ?now (Some (JStr ''2026-06-16'')))" by blast
  from c a v b w show ?thesis by blast
qed

text \<open>
  C4 as stated fails twice. "2024-02-29" is not valid whatever the clock says: on
  2 November 2026 it is more than a year in the past. And a string need not have the
  shape to be accepted: the validator trims it first, so the date written with a space
  before and after it is accepted.
\<close>

theorem validateDueDate_accepts_exactly_counterexample:
  "\<not> valid (validateDueDate
     \<lparr>fullYear = 2026, monthIndex = 10, dayOfMonth = 2, msOfDay = 36000000\<rparr>
     \<lparr>fullYear = 2026, monthIndex = 10, dayOfMonth = 2, msOfDay = 36000000\<rparr>
     (Some (JStr ''2024-02-29''))) \<and>
   \<not> iso_shape '' 2026-11-09 '' \<and>
   valid (validateDueDate
     \<lparr>fullYear = 2026, monthIndex = 10, dayOfMonth = 2, msOfDay = 36000000\<rparr>
     \<lparr>fullYear = 2026, monthIndex = 10, dayOfMonth = 2, msOfDay = 36000000\<rparr>
     (Some (JStr '' 2026-11-09 '')))"
  by code_simp

section \<open>How values print\<close>

lemma digit_char_simps:
  "digit_char 0 = CHR ''0''" "digit_char 1 = CHR ''1''" "digit_char 2 = CHR ''2''"
  "digit_char 3 = CHR ''3''" "digit_char 4 = CHR ''4''" "digit_char 5 = CHR ''5''"
  "digit_char 6 = CHR ''6''" "digit_char 7 = CHR ''7''" "digit_char 8 = CHR ''8''"
  "digit_char 9 = CHR ''9''"
  by code_simp+

lemma show_nat_1: "show_nat (Suc 0) = ''1''"
  by code_simp

lemma show_nat_1e21: "show_nat 1000000000000000000000 = ''1000000000000000000000''"
  by (simp add: show_nat.simps[of "numeral n" for n] digit_char_simps show_nat_1)

lemma show_nat_15e20: "show_nat 1500000000000000000000 = ''1500000000000000000000''"
  by (simp add: show_nat.simps[of "numeral n" for n] digit_char_simps show_nat_1)

lemma show_exponent_1e21: "show_exponent 1000000000000000000000 = ''1e+21''"
  unfolding show_exponent_def show_nat_1e21 by code_simp

lemma show_exponent_15e20: "show_exponent 1500000000000000000000 = ''1.5e+21''"
  unfolding show_exponent_def show_nat_15e20 by code_simp

text \<open>Numbers print with their digits below \<open>10^21\<close> and in exponent form from there on.\<close>

lemma js_String_numbers:
  "js_String (JNum 120) = Inr ''120''"
  "js_String (JNum (- 5)) = Inr ''-5''"
  "js_String (JNum 999999999999999999999) = Inr ''999999999999999999999''"
  "js_String (JNum 1000000000000000000000) = Inr ''1e+21''"
  "js_String (JNum 1500000000000000000000) = Inr ''1.5e+21''"
  "js_String (JNum (- 1000000000000000000000)) = Inr ''-1e+21''"
  by (simp_all add: show_number_def show_int_def show_exponent_1e21 show_exponent_15e20
      show_nat.simps[of "numeral n" for n] digit_char_simps show_nat_1)

text \<open>
  Arrays print their elements joined by commas, \<^verbatim>\<open>null\<close> as nothing; an object with a
  \<^verbatim>\<open>toString\<close> key of its own does not print, wherever it sits.
\<close>

lemma js_String_arrays:
  "js_String (JArr [JNull, JNum 1, JArr [JNum 2, JNum 3], JObj []]) =
     Inr '',1,2,3,[object Object]''"
  "js_String (JArr [JNum 1, JArr [JNum 2, JObj [(''toString'', JNull)]]]) = Inl TypeError"
  by code_simp+

section \<open>Absent and wrong-type input (C9)\<close>

lemma validatePriority_other:
  "(\<forall>s. v \<noteq> Some (JStr s)) \<Longrightarrow>
   validatePriority v = reject ''Priority must be High, Medium, or Low''"
  by (auto simp: validatePriority_def)

lemma validate_strings_only:
  assumes "\<forall>s. v \<noteq> Some (JStr s)"
  shows "validateTitle v = reject ''Title is required''"
    and "validateDueDate now1 now2 v = reject ''Due date is required''"
    and "validateTag v = reject ''Tag is required''"
proof -
  show "validateTitle v = reject ''Title is required''"
    using assms by (cases v rule: validateTitle.cases) simp_all
  show "validateDueDate now1 now2 v = reject ''Due date is required''"
    using assms by (cases v rule: validateTitle.cases) simp_all
  show "validateTag v = reject ''Tag is required''"
    using assms by (cases v rule: validateTitle.cases) simp_all
qed

text \<open>
  \<open>validateDuration\<close> throws exactly when \<^verbatim>\<open>String(duration)\<close> does: on an object that has
  a \<^verbatim>\<open>toString\<close> key of its own, and on an array that holds one.
\<close>

lemma validateDuration_throws_iff:
  "validateDuration v = Inl e \<longleftrightarrow> (\<exists>j. v = Some j \<and> js_String j = Inl e)"
proof (cases v)
  case None
  then show ?thesis by simp
next
  case (Some j)
  then show ?thesis
    by (cases j) (auto simp: Let_def split: sum.splits if_splits)
qed

lemma validateDuration_own_toString:
  "validateDuration (Some (JObj [(''toString'', JNull)])) = Inl TypeError \<and>
   validateDuration (Some (JArr [JObj [(''toString'', JNull)]])) = Inl TypeError"
  by simp

text \<open>
  A number from \<open>10^21\<close> on prints in exponent form and is rejected for its form, not for
  its size.
\<close>

lemma validateDuration_exponent_form:
  "validateDuration (Some (JNum 1000000000000000000000)) =
     Inr (reject ''Duration must be a positive number (e.g., 120)'')"
proof -
  have "\<not> matches DURATION_REGEX (trim ''1e+21'')" by code_simp
  with js_String_numbers(4) show ?thesis by simp
qed

lemma validateDuration_returns:
  assumes "js_String j = Inr s"
  shows "\<exists>r. validateDuration (Some j) = Inr r"
proof (cases "validateDuration (Some j)")
  case (Inl e)
  with validateDuration_throws_iff[of "Some j" e] assms show ?thesis by simp
next
  case (Inr r)
  then show ?thesis by blast
qed

lemma validateDuration_coerces:
  assumes "j \<noteq> JNull" "js_String j = Inr s" "s \<noteq> []"
  shows "validateDuration (Some j) = validateDuration (Some (JStr s))"
  using assms by (cases j) (auto split: if_splits)

lemma validateDuration_plain_object:
  assumes "''toString'' \<notin> set (map fst kvs)"
  shows "validateDuration (Some (JObj kvs)) =
         Inr (reject ''Duration must be a positive number (e.g., 120)'')"
proof -
  have "\<not> matches DURATION_REGEX (trim ''[object Object]'')" by code_simp
  with assms show ?thesis by simp
qed

text \<open>
  C9, as the code has it. \<open>validateTitle\<close>, \<open>validateDueDate\<close>, \<open>validateTag\<close> and
  \<open>validatePriority\<close> are functions from \<^verbatim>\<open>undefined\<close> and every JSON value to a result
  \<open>{valid, error}\<close>: no operation in them can throw on such a value and none writes to it.
  Every value that is not a string they reject, the first three with the reason that the
  field is required, \<open>validatePriority\<close> with its one reason. \<open>validateDuration\<close> rejects
  \<^verbatim>\<open>undefined\<close> and \<^verbatim>\<open>null\<close> as required. Of any other value it takes the text
  \<^verbatim>\<open>String(value)\<close>: whenever that conversion returns, as it does on every number, boolean
  and string, the validator returns a result, and when the text is not empty the result
  is the one for that text. An object that has no \<^verbatim>\<open>toString\<close> key is rejected as not
  being a positive number.
\<close>

theorem validators_absent_or_wrong_type:
  "((\<forall>s. v \<noteq> Some (JStr s)) \<longrightarrow>
      validateTitle v = reject ''Title is required'' \<and>
      validateDueDate now1 now2 v = reject ''Due date is required'' \<and>
      validateTag v = reject ''Tag is required'' \<and>
      validatePriority v = reject ''Priority must be High, Medium, or Low'') \<and>
   validateDuration None = Inr (reject ''Duration is required'') \<and>
   validateDuration (Some JNull) = Inr (reject ''Duration is required'') \<and>
   (js_String j = Inr s \<longrightarrow>
      (\<exists>r. validateDuration (Some j) = Inr r) \<and>
      (j \<noteq> JNull \<and> s \<noteq> [] \<longrightarrow> validateDuration (Some j) = validateDuration (Some (JStr s)))) \<and>
   (\<exists>r. validateDuration (Some (JNum n)) = Inr r) \<and>
   (\<exists>r. validateDuration (Some (JBool b)) = Inr r) \<and>
   (\<exists>r. validateDuration (Some (JStr t)) = Inr r) \<and>
   (''toString'' \<notin> set (map fst kvs) \<longrightarrow>
      validateDuration (Some (JObj kvs)) =
      Inr (reject ''Duration must be a positive number (e.g., 120)''))"
proof -
  have 1: "(\<forall>s. v \<noteq> Some (JStr s)) \<longrightarrow>
      validateTitle v = reject ''Title is required'' \<and>
      validateDueDate now1 now2 v = reject ''Due date is required'' \<and>
      validateTag v = reject ''Tag is required'' \<and>
      validatePriority v = reject ''Priority must be High, Medium, or Low''"
    using validate_strings_only(1)[of v] validate_strings_only(2)[of v now1 now2]
      validate_strings_only(3)[of v] validatePriority_other[of v]
    by blast
  have 2: "validateDuration None = Inr (reject ''Duration is required'')" by simp
  have 3: "validateDuration (Some JNull) = Inr (reject ''Duration is required'')" by simp
  have 4: "js_String j = Inr s \<longrightarrow>
      (\<exists>r. validateDuration (Some j) = Inr r) \<and>
      (j \<noteq> JNull \<and> s \<noteq> [] \<longrightarrow> validateDuration (Some j) = validateDuration (Some (JStr s)))"
    using validateDuration_returns[of j s] validateDuration_coerces[of j s] by blast
  have 5: "\<exists>r. validateDuration (Some (JNum n)) = Inr r"
    by (rule validateDuration_returns[of _ "show_number n"]) simp
  have 6: "\<exists>r. validateDuration (Some (JBool b)) = Inr r"
    by (rule validateDuration_returns[of _ "if b then ''true'' else ''false''"]) simp
  have 7: "\<exists>r. validateDuration (Some (JStr t)) = Inr r"
    by (rule validateDuration_returns[of _ t]) simp
  have 8: "''toString'' \<notin> set (map fst kvs) \<longrightarrow>
      validateDuration (Some (JObj kvs)) =
      Inr (reject ''Duration must be a positive number (e.g., 120)'')"
    using validateDuration_plain_object[of kvs] by blast
  from 1 2 3 4 5 6 7 8 show ?thesis by blast
qed

theorem validators_absent_or_wrong_type_witness:
  "validateTitle (Some (JNum 5)) = reject ''Title is required'' \<and>
   validateDueDate
     \<lparr>fullYear = 2024, monthIndex = 5, dayOfMonth = 15, msOfDay = 36000000\<rparr>
     \<lparr>fullYear = 2024, monthIndex = 5, dayOfMonth = 15, msOfDay = 36000000\<rparr>
     (Some (JNum 5)) = reject ''Due date is required'' \<and>
   validateTag (Some (JNum 5)) = reject ''Tag is required'' \<and>
   validatePriority (Some (JNum 5)) = reject ''Priority must be High, Medium, or Low'' \<and>
   validateDuration (Some (JBool True)) = validateDuration (Some (JStr ''true'')) \<and>
   validateDuration (Some (JBool True)) =
     Inr (reject ''Duration must be a positive number (e.g., 120)'') \<and>
   validateDuration (Some (JObj [(''minutes'', JNum 120)])) =
     Inr (reject ''Duration must be a positive number (e.g., 120)'')"
proof -
  have h1: "\<forall>s. Some (JNum 5) \<noteq> Some (JStr s)" by simp
  have h2: "js_String (JBool True) = Inr ''true''" by simp
  have h3: "JBool True \<noteq> JNull \<and> ''true'' \<noteq> []" by simp
  have h4: "''toString'' \<notin> set (map fst [(''minutes'', JNum 120)])" by simp
  have n: "validateDuration (Some (JStr ''true'')) =
     Inr (reject ''Duration must be a positive number (e.g., 120)'')" by code_simp
  from validators_absent_or_wrong_type[of "Some (JNum 5)"
      "\<lparr>fullYear = 2024, monthIndex = 5, dayOfMonth = 15, msOfDay = 36000000\<rparr>"
      "\<lparr>fullYear = 2024, monthIndex = 5, dayOfMonth = 15, msOfDay = 36000000\<rparr>"
      "JBool True" "''true''" _ _ _ "[(''minutes'', JNum 120)]"] h1 h2 h3 h4 n
  show ?thesis by simp
qed

text \<open>
  C9 as stated fails for \<open>validateDuration\<close>: a number and an array that print as a
  duration are accepted, though neither is a string.
\<close>

theorem validators_absent_or_wrong_type_counterexample:
  "validateDuration (Some (JNum 120)) = Inr accept \<and>
   validateDuration (Some (JArr [JNum 120])) = Inr accept"
  by code_simp

section \<open>Sorting an already sorted sequence (C7)\<close>

lemma sorted_unique:
  assumes "sorted_wrt R xs" "sorted_wrt (\<lambda>a b. \<not> R b a) ys" "mset ys = mset xs"
  shows "ys = xs"
  using assms
proof (induction xs arbitrary: ys)
  case Nil
  then show ?case by simp
next
  case (Cons x xs)
  from Cons.prems(3) have "ys \<noteq> []" by auto
  then obtain y ys' where ys: "ys = y # ys'" by (cases ys) auto
  have xy: "x = y"
  proof (rule ccontr)
    assume ne: "x \<noteq> y"
    have "x \<in># mset ys" using Cons.prems(3) by simp
    then have "x \<in> set ys'" using ne ys by auto
    then have a: "\<not> R x y" using Cons.prems(2) ys by auto
    have "y \<in># mset (x # xs)" using Cons.prems(3) ys by (metis list.set_intros(1) set_mset_mset)
    then have "y \<in> set xs" using ne by auto
    then have "R x y" using Cons.prems(1) by auto
    with a show False by simp
  qed
  from Cons.prems(3) ys xy have "mset ys' = mset xs" by simp
  moreover from Cons.prems(1) have "sorted_wrt R xs" by simp
  moreover from Cons.prems(2) ys have "sorted_wrt (\<lambda>a b. \<not> R b a) ys'" by simp
  ultimately have "ys' = xs" by (intro Cons.IH)
  with ys xy show ?case by simp
qed

lemma sorts_by_strictly_sorted:
  assumes "strictly_sorted_by cmp xs" "sorts_by cmp xs ys"
  shows "ys = xs"
proof -
  let ?R = "\<lambda>a b. cmp a b < 0 \<and> 0 < cmp b a"
  from assms(2) have "sorted_wrt (\<lambda>a b. cmp a b \<le> 0) ys" by (simp add: sorts_by_def)
  then have "sorted_wrt (\<lambda>a b. \<not> ?R b a) ys"
    by (rule sorted_wrt_mono_rel[rotated]) auto
  moreover from assms(1) have "sorted_wrt ?R xs" by (simp add: strictly_sorted_by_def)
  moreover from assms(2) have "mset ys = mset xs" by (simp add: sorts_by_def)
  ultimately show ?thesis by (intro sorted_unique[where R = ?R])
qed

lemma compare_tasks_throws:
  "isl (compare_tasks field order a b) \<Longrightarrow>
   isl (sort_key field a) \<or> isl (sort_key field b)"
  by (auto simp: compare_tasks_def split: if_splits sum.splits)

lemma comparator_zero_left: "isl (sort_key field a) \<Longrightarrow>
  field = ''dueDate'' \<or> field = ''title'' \<or> field = ''duration'' \<Longrightarrow> comparator field order a b = 0"
  by (auto simp: comparator_def compare_tasks_def split: sum.splits)

lemma comparator_zero_right: "isl (sort_key field b) \<Longrightarrow>
  field = ''dueDate'' \<or> field = ''title'' \<or> field = ''duration'' \<Longrightarrow> comparator field order a b = 0"
  by (auto simp: comparator_def compare_tasks_def split: sum.splits)

lemma strictly_sorted_pair:
  assumes "sorted_wrt R xs" "a \<in> set xs" "2 \<le> length xs"
  shows "\<exists>c. R a c \<or> R c a"
proof -
  from assms(2) obtain i where i: "i < length xs" "xs ! i = a" by (auto simp: in_set_conv_nth)
  show ?thesis
  proof (cases "i = 0")
    case True
    with i assms(3) have "R (xs ! 0) (xs ! 1)"
      using assms(1) by (auto simp: sorted_wrt_iff_nth_less)
    with True i show ?thesis by auto
  next
    case False
    with i have "R (xs ! 0) (xs ! i)"
      using assms(1) by (auto simp: sorted_wrt_iff_nth_less)
    with i show ?thesis by auto
  qed
qed

lemma strictly_sorted_no_throw:
  assumes "strictly_sorted_by (comparator field order) tasks" "2 \<le> length tasks"
  shows "\<not> list_ex (\<lambda>a. list_ex (\<lambda>b. isl (compare_tasks field order a b)) tasks) tasks"
proof
  assume "list_ex (\<lambda>a. list_ex (\<lambda>b. isl (compare_tasks field order a b)) tasks) tasks"
  then obtain a b where ab: "a \<in> set tasks" "b \<in> set tasks" "isl (compare_tasks field order a b)"
    by (auto simp: list_ex_iff)
  then have known: "field = ''dueDate'' \<or> field = ''title'' \<or> field = ''duration''"
    by (auto simp: compare_tasks_def split: if_splits)
  from ab(3) have "isl (sort_key field a) \<or> isl (sort_key field b)" by (rule compare_tasks_throws)
  then obtain t where t: "t \<in> set tasks" "isl (sort_key field t)" using ab by auto
  let ?R = "\<lambda>a b. comparator field order a b < 0 \<and> 0 < comparator field order b a"
  from assms(1) have "sorted_wrt ?R tasks" by (simp add: strictly_sorted_by_def)
  then have "\<exists>c. ?R t c \<or> ?R c t" using t(1) assms(2) by (rule strictly_sorted_pair)
  then show False
    using comparator_zero_left[OF t(2) known] comparator_zero_right[OF t(2) known] by auto
qed

text \<open>
  C7, as the code has it. For every field and order, and every engine sort that returns
  the same tasks ordered as the comparator says: when the active tasks are already sorted
  by that field and order and no two of their keys are equal, \<open>sortTasks\<close> yields the
  identical sequence, hence the identical sequence of ids.
\<close>

theorem sortTasks_idempotent_without_ties:
  assumes "filter_e not_completed (loadTasks st) = Inr tasks"
    and "strictly_sorted_by (comparator field order) tasks"
    and "sorts_by (comparator field order) tasks (engine_sort (comparator field order) tasks)"
  shows "sortTasks engine_sort field order st = Inr tasks"
proof -
  have e: "engine_sort (comparator field order) tasks = tasks"
    using assms(2,3) by (rule sorts_by_strictly_sorted)
  have "2 \<le> length tasks \<Longrightarrow>
    \<not> list_ex (\<lambda>a. list_ex (\<lambda>b. isl (compare_tasks field order a b)) tasks) tasks"
    using assms(2) by (rule strictly_sorted_no_throw)
  then show ?thesis using assms(1) e by (auto simp: sortTasks_def)
qed

theorem sortTasks_idempotent_without_ties_witness:
  "sortTasks insertion_sort ''duration'' ''asc''
     (empty_storage\<lparr>tasks_item := Some (Json (JArr
        [JObj [(''id'', JStr ''a''), (''title'', JStr ''Essay''),
               (''dueDate'', JStr ''2026-11-09''), (''duration'', JStr ''30''),
               (''completed'', JBool False)],
         JObj [(''id'', JStr ''b''), (''title'', JStr ''Lab''),
               (''dueDate'', JStr ''2026-11-10''), (''duration'', JStr ''60''),
               (''completed'', JBool False)]]))\<rparr>) =
   Inr [JObj [(''id'', JStr ''a''), (''title'', JStr ''Essay''),
              (''dueDate'', JStr ''2026-11-09''), (''duration'', JStr ''30''),
              (''completed'', JBool False)],
        JObj [(''id'', JStr ''b''), (''title'', JStr ''Lab''),
              (''dueDate'', JStr ''2026-11-10''), (''duration'', JStr ''60''),
              (''completed'', JBool False)]]"
proof -
  let ?a = "JObj [(''id'', JStr ''a''), (''title'', JStr ''Essay''),
               (''dueDate'', JStr ''2026-11-09''), (''duration'', JStr ''30''),
               (''completed'', JBool False)]"
  let ?b = "JObj [(''id'', JStr ''b''), (''title'', JStr ''Lab''),
               (''dueDate'', JStr ''2026-11-10''), (''duration'', JStr ''60''),
               (''completed'', JBool False)]"
  let ?st = "empty_storage\<lparr>tasks_item := Some (Json (JArr [?a, ?b]))\<rparr>"
  have 1: "filter_e not_completed (loadTasks ?st) = Inr [?a, ?b]" by code_simp
  have 2: "strictly_sorted_by (comparator ''duration'' ''asc'') [?a, ?b]" by code_simp
  have 3: "sorts_by (comparator ''duration'' ''asc'') [?a, ?b]
             (insertion_sort (comparator ''duration'' ''asc'') [?a, ?b])"
    unfolding sorts_by_def by code_simp
  from sortTasks_idempotent_without_ties[where engine_sort = insertion_sort, OF 1 2 3]
  show ?thesis .
qed

text \<open>
  C7 as stated fails where keys are equal. The comparator answers -1 both ways for two
  tasks of the same duration, so the order of the two is the engine's choice: the two
  tasks are sorted by duration already (the comparator does not put the first after the
  second), and the insertion sort returns them in the opposite order.
\<close>

theorem sortTasks_idempotent_without_ties_counterexample:
  "comparator ''duration'' ''asc''
     (JObj [(''id'', JStr ''a''), (''title'', JStr ''Essay''),
            (''dueDate'', JStr ''2026-11-09''), (''duration'', JStr ''60''),
            (''completed'', JBool False)])
     (JObj [(''id'', JStr ''b''), (''title'', JStr ''Lab''),
            (''dueDate'', JStr ''2026-11-10''), (''duration'', JStr ''60''),
            (''completed'', JBool False)]) \<le> 0 \<and>
   sortTasks insertion_sort ''duration'' ''asc''
     (empty_storage\<lparr>tasks_item := Some (Json (JArr
        [JObj [(''id'', JStr ''a''), (''title'', JStr ''Essay''),
               (''dueDate'', JStr ''2026-11-09''), (''duration'', JStr ''60''),
               (''completed'', JBool False)],
         JObj [(''id'', JStr ''b''), (''title'', JStr ''Lab''),
               (''dueDate'', JStr ''2026-11-10''), (''duration'', JStr ''60''),
               (''completed'', JBool False)]]))\<rparr>) =
   Inr [JObj [(''id'', JStr ''b''), (''title'', JStr ''Lab''),
              (''dueDate'', JStr ''2026-11-10''), (''duration'', JStr ''60''),
              (''completed'', JBool False)],
        JObj [(''id'', JStr ''a''), (''title'', JStr ''Essay''),
              (''dueDate'', JStr ''2026-11-09''), (''duration'', JStr ''60''),
              (''completed'', JBool False)]]"
  by code_simp

end
